theory Spec2Isabelle
  imports Main "HOL-Library.Sublist"
begin

section \<open>Strings and characters\<close>

text \<open>
  A JavaScript string is a sequence of UTF-16 code units. The model's \<open>string\<close> is a list
  of \<open>char\<close>, and a \<open>char\<close> stands for the code unit with the same number, from 0 to 255
  (Basic Latin and Latin-1 Supplement); a string with a code unit above 255 is not a
  value of the model. On these code units every string operation below is the one of
  ECMAScript. The regular-expression classes \<open>[a-z]\<close>, \<open>[a-zA-Z0-9]\<close> and \<open>\w\<close> are the
  ASCII ones, as they are in a regular expression without the flags \<open>i\<close> and \<open>u\<close>.
\<close>

definition lowerAZ :: string where
  "lowerAZ = ''abcdefghijklmnopqrstuvwxyz''"

definition upperAZ :: string where
  "upperAZ = ''ABCDEFGHIJKLMNOPQRSTUVWXYZ''"

definition digits09 :: string where
  "digits09 = ''0123456789''"

definition isLowerAZ :: "char \<Rightarrow> bool" where
  "isLowerAZ c = (c \<in> set lowerAZ)"

definition isUpperAZ :: "char \<Rightarrow> bool" where
  "isUpperAZ c = (c \<in> set upperAZ)"

definition isDigit :: "char \<Rightarrow> bool" where
  "isDigit c = (c \<in> set digits09)"

text \<open>The class \<open>[a-zA-Z0-9]\<close>.\<close>

definition isAlnum :: "char \<Rightarrow> bool" where
  "isAlnum c = (isLowerAZ c \<or> isUpperAZ c \<or> isDigit c)"

text \<open>The class \<open>\w\<close>, that is \<open>[A-Za-z0-9_]\<close>.\<close>

definition isWordChar :: "char \<Rightarrow> bool" where
  "isWordChar c = (isAlnum c \<or> c = CHR ''_'')"

text \<open>
  \<open>letter.toUpperCase()\<close> for a letter that matched \<open>[a-z]\<close>: the only use of
  \<open>toUpperCaseChar\<close> is on such letters.
\<close>

definition toUpperCaseChar :: "char \<Rightarrow> char" where
  "toUpperCaseChar c = (case map_of (zip lowerAZ upperAZ) c of Some u \<Rightarrow> u | None \<Rightarrow> c)"

text \<open>
  \<open>String.prototype.toLowerCase\<close>: the capital letters among the code units up to 255 are
  \<open>A\<close> to \<open>Z\<close> (65 to 90) and the Latin-1 capitals 192 to 214 and 216 to 222; each has
  its small letter 32 places higher. No other code unit up to 255 changes.
\<close>

definition toLowerCaseChar :: "char \<Rightarrow> char" where
  "toLowerCaseChar c =
     (let n = (of_char c :: nat)
      in if (65 \<le> n \<and> n \<le> 90) \<or> (192 \<le> n \<and> n \<le> 214) \<or> (216 \<le> n \<and> n \<le> 222)
         then char_of (n + 32) else c)"

definition toLowerCase :: "string \<Rightarrow> string" where
  "toLowerCase s = map toLowerCaseChar s"

text \<open>
  \<open>String.prototype.toUpperCase\<close> can leave the range of \<open>char\<close>: the sharp s (223)
  becomes \<open>SS\<close>, the micro sign (181) becomes code unit 924 and the y with diaeresis
  (255) becomes code unit 376. Its result is therefore a list of code unit numbers.
\<close>

type_synonym codeUnits = "nat list"

definition unitsOf :: "string \<Rightarrow> codeUnits" where
  "unitsOf s = map of_char s"

definition toUpperCaseUnits :: "char \<Rightarrow> codeUnits" where
  "toUpperCaseUnits c =
     (let n = (of_char c :: nat)
      in if (97 \<le> n \<and> n \<le> 122) \<or> (224 \<le> n \<and> n \<le> 246) \<or> (248 \<le> n \<and> n \<le> 254)
         then [n - 32]
         else if n = 223 then [83, 83]
         else if n = 181 then [924]
         else if n = 255 then [376]
         else [n])"

definition toUpperCase :: "string \<Rightarrow> codeUnits" where
  "toUpperCase s = concat (map toUpperCaseUnits s)"

text \<open>\<open>String.prototype.startsWith\<close> and \<open>String.prototype.includes\<close>.\<close>

fun startsWith :: "string \<Rightarrow> string \<Rightarrow> bool" where
  "startsWith s [] = True"
| "startsWith [] (k # ks) = False"
| "startsWith (c # cs) (k # ks) = (c = k \<and> startsWith cs ks)"

fun includesStr :: "string \<Rightarrow> string \<Rightarrow> bool" where
  "includesStr [] k = (k = [])"
| "includesStr (c # cs) k = (startsWith (c # cs) k \<or> includesStr cs k)"

text \<open>
  \<open>String.prototype.trim\<close> removes white space and line terminators at both ends. Among
  the code units up to 255 these are tab (9), line feed (10), vertical tab (11), form
  feed (12), carriage return (13), space (32) and no-break space (160).
\<close>

definition isWhitespace :: "char \<Rightarrow> bool" where
  "isWhitespace c =
     (c \<in> set [CHR 0x09, CHR 0x0A, CHR 0x0B, CHR 0x0C, CHR 0x0D, CHR 0x20, CHR 0xA0])"

definition trim :: "string \<Rightarrow> string" where
  "trim s = rev (dropWhile isWhitespace (rev (dropWhile isWhitespace s)))"

text \<open>\<open>str.split(sep)\<close> for a one-character separator: the empty string gives one empty part.\<close>

fun split :: "char \<Rightarrow> string \<Rightarrow> string list" where
  "split sep [] = [[]]"
| "split sep (c # cs) =
     (if c = sep then [] # split sep cs
      else (case split sep cs of [] \<Rightarrow> [[c]] | p # ps \<Rightarrow> (c # p) # ps))"

text \<open>
  The decimal rendering of a counter inside a template literal
  (\<open>`${baseId}${counter}`\<close>). The counter is a natural number here; the source's
  double-precision number agrees with it below \<open>2^53\<close>.
\<close>

fun toStringNat :: "nat \<Rightarrow> string" where
  "toStringNat n =
     (if n < 10 then [digits09 ! n] else toStringNat (n div 10) @ [digits09 ! (n mod 10)])"

declare toStringNat.simps [simp del]

section \<open>The uniqueness ledger\<close>

text \<open>
  \<open>this.usedOperationIds\<close> is a JavaScript \<open>Set\<close> of strings: here the list of its
  members in insertion order; \<open>has\<close> is membership and \<open>add\<close> of a new member appends.
\<close>

type_synonym ledger = "string list"

lemma toStringNat_not_Nil: "toStringNat n \<noteq> []"
  by (subst toStringNat.simps) simp

lemma digits09_inj: "a < 10 \<Longrightarrow> b < 10 \<Longrightarrow> digits09 ! a = digits09 ! b \<Longrightarrow> a = b"
proof -
  assume a: "a < 10" and b: "b < 10" and e: "digits09 ! a = digits09 ! b"
  have d: "distinct digits09" by (simp add: digits09_def)
  have l: "length digits09 = 10" by (simp add: digits09_def)
  from d a b e l show "a = b" by (simp add: nth_eq_iff_index_eq)
qed

lemma toStringNat_inj: "toStringNat a = toStringNat b \<Longrightarrow> a = b"
proof (induction a arbitrary: b rule: toStringNat.induct)
  case (1 n)
  show ?case
  proof (cases "n < 10")
    case True
    note n = True
    show ?thesis
    proof (cases "b < 10")
      case True
      with n "1.prems" show ?thesis
        by (simp add: toStringNat.simps [of n] toStringNat.simps [of b] digits09_inj)
    next
      case False
      with n "1.prems" show ?thesis
        using toStringNat_not_Nil [of "b div 10"]
        by (simp add: toStringNat.simps [of n] toStringNat.simps [of b])
    qed
  next
    case False
    note n = False
    show ?thesis
    proof (cases "b < 10")
      case True
      with n "1.prems" show ?thesis
        using toStringNat_not_Nil [of "n div 10"]
        by (simp add: toStringNat.simps [of n] toStringNat.simps [of b])
    next
      case False
      with n "1.prems" have e: "toStringNat (n div 10) = toStringNat (b div 10)"
        and m: "digits09 ! (n mod 10) = digits09 ! (b mod 10)"
        by (simp_all add: toStringNat.simps [of n] toStringNat.simps [of b])
      from "1.IH" [OF n e] have "n div 10 = b div 10" .
      moreover from m have "n mod 10 = b mod 10"
        by (intro digits09_inj) simp_all
      ultimately show ?thesis
        by (metis div_mult_mod_eq)
    qed
  qed
qed

lemma finite_probes: "finite {k. counter \<le> k \<and> baseId @ toStringNat k \<in> set used}"
proof -
  have "inj_on (\<lambda>k. baseId @ toStringNat k) {k. counter \<le> k \<and> baseId @ toStringNat k \<in> set used}"
    by (auto simp: inj_on_def dest: toStringNat_inj)
  moreover have "(\<lambda>k. baseId @ toStringNat k) ` {k. counter \<le> k \<and> baseId @ toStringNat k \<in> set used}
      \<subseteq> set used"
    by auto
  ultimately show ?thesis
    by (meson finite_imageD finite_subset finite_set)
qed

text \<open>
  The \<open>while\<close> loop of \<open>ensureUniqueOperationId\<close>: \<open>counter\<close> goes up until
  \<open>baseId + counter\<close> is not in the ledger. It ends because the ledger is finite.
\<close>

function uniqueIdLoop :: "ledger \<Rightarrow> string \<Rightarrow> nat \<Rightarrow> string" where
  "uniqueIdLoop used baseId counter =
     (let uniqueId = baseId @ toStringNat counter
      in if uniqueId \<in> set used then uniqueIdLoop used baseId (counter + 1) else uniqueId)"
  by pat_completeness auto
termination
proof (relation "measure (\<lambda>(used, baseId, counter).
    card {k. counter \<le> k \<and> baseId @ toStringNat k \<in> set used})")
  show "wf (measure (\<lambda>(used, baseId, counter).
    card {k. counter \<le> k \<and> baseId @ toStringNat k \<in> set used}))"
    by simp
next
  fix used :: ledger and baseId :: string and counter :: nat and x :: string
  assume x: "x = baseId @ toStringNat counter" and m: "x \<in> set used"
  let ?A = "{k. counter \<le> k \<and> baseId @ toStringNat k \<in> set used}"
  let ?B = "{k. counter + 1 \<le> k \<and> baseId @ toStringNat k \<in> set used}"
  have "?B \<subseteq> ?A" by auto
  moreover have "counter \<in> ?A" using x m by simp
  moreover have "counter \<notin> ?B" by simp
  ultimately have "?B \<subset> ?A" by blast
  then have "card ?B < card ?A"
    by (simp add: finite_probes psubset_card_mono)
  then show "((used, baseId, counter + 1), (used, baseId, counter))
      \<in> measure (\<lambda>(used, baseId, counter).
          card {k. counter \<le> k \<and> baseId @ toStringNat k \<in> set used})"
    by simp
qed

declare uniqueIdLoop.simps [simp del]

text \<open>\<open>ensureUniqueOperationId\<close> returns the identifier and the ledger after the call.\<close>

definition ensureUniqueOperationId :: "string \<Rightarrow> ledger \<Rightarrow> string \<times> ledger" where
  "ensureUniqueOperationId baseId used =
     (if baseId \<notin> set used then (baseId, used @ [baseId])
      else (let uniqueId = uniqueIdLoop used baseId 2 in (uniqueId, used @ [uniqueId])))"

lemma uniqueIdLoop_least:
  "\<exists>n. counter \<le> n \<and> uniqueIdLoop used baseId counter = baseId @ toStringNat n
     \<and> baseId @ toStringNat n \<notin> set used
     \<and> (\<forall>m. counter \<le> m \<and> m < n \<longrightarrow> baseId @ toStringNat m \<in> set used)"
proof (induction used baseId counter rule: uniqueIdLoop.induct)
  case (1 used baseId counter)
  show ?case
  proof (cases "baseId @ toStringNat counter \<in> set used")
    case True
    from "1.IH" [OF refl True] obtain n where n: "counter + 1 \<le> n"
      "uniqueIdLoop used baseId (counter + 1) = baseId @ toStringNat n"
      "baseId @ toStringNat n \<notin> set used"
      "\<forall>m. counter + 1 \<le> m \<and> m < n \<longrightarrow> baseId @ toStringNat m \<in> set used"
      by blast
    have a: "uniqueIdLoop used baseId counter = baseId @ toStringNat n"
      using True n(2) by (subst uniqueIdLoop.simps) simp
    have b: "\<forall>m. counter \<le> m \<and> m < n \<longrightarrow> baseId @ toStringNat m \<in> set used"
    proof (intro allI impI)
      fix m assume "counter \<le> m \<and> m < n"
      then have "m = counter \<or> (counter + 1 \<le> m \<and> m < n)" by arith
      with True n(4) show "baseId @ toStringNat m \<in> set used" by blast
    qed
    from n(1) have "counter \<le> n" by simp
    with a b n(3) show ?thesis by blast
  next
    case False
    then have "uniqueIdLoop used baseId counter = baseId @ toStringNat counter"
      by (subst uniqueIdLoop.simps) simp
    with False show ?thesis by auto
  qed
qed

lemma ensureUniqueOperationId_fresh:
  "ensureUniqueOperationId baseId used = (uid, used') \<Longrightarrow> uid \<notin> set used \<and> used' = used @ [uid]"
  using uniqueIdLoop_least [of 2 used baseId]
  by (auto simp: ensureUniqueOperationId_def Let_def split: if_splits)

section \<open>Input: endpoint records\<close>

text \<open>
  A field of a record is absent or \<open>null\<close> (both \<open>None\<close>: the converter reads these fields
  with \<open>||\<close>, \<open>!\<close> or \<open>?.\<close>, which do not tell the two apart) or has the type the
  converter expects. \<open>a || b\<close> on strings takes \<open>b\<close> when \<open>a\<close> is absent or empty.
\<close>

definition strOr :: "string option \<Rightarrow> string \<Rightarrow> string" where
  "strOr a b = (case a of None \<Rightarrow> b | Some s \<Rightarrow> if s = [] then b else s)"

text \<open>
  The field \<open>type\<close> is the exception: the destructuring default in \<open>convertEndpoint\<close>
  applies to an absent \<open>type\<close> only, so \<open>null\<close> is a value of its own.
\<close>

datatype typeField = TypeUndefined | TypeNull | TypeString string

text \<open>\<open>endpoint.type || 'get'\<close>.\<close>

definition typeOr :: "typeField \<Rightarrow> string \<Rightarrow> string" where
  "typeOr t d = (case t of TypeString s \<Rightarrow> if s = [] then d else s | _ \<Rightarrow> d)"

record field =
  f_field :: string
  f_type :: "string option"
  f_optional :: bool
  f_description :: "string option"

text \<open>The \<open>fields\<close> object of a field group: from a label to the list of fields under it.\<close>

type_synonym fieldGroups = "string \<rightharpoonup> field list"

text \<open>
  \<open>e_deprecated\<close> is the \<open>deprecated\<close> object with its optional \<open>content\<close>;
  \<open>e_parameter\<close>, \<open>e_header\<close>, \<open>e_success\<close> and \<open>e_error\<close> are \<open>parameter?.fields\<close>
  and so on; \<open>e_public\<close> is the \<open>public\<close> flag.
\<close>

record endpoint =
  e_type :: typeField
  e_url :: "string option"
  e_title :: "string option"
  e_name :: "string option"
  e_group :: "string option"
  e_description :: "string option"
  e_deprecated :: "string option option"
  e_parameter :: "fieldGroups option"
  e_header :: "fieldGroups option"
  e_success :: "fieldGroups option"
  e_error :: "fieldGroups option"
  e_public :: "bool option"

record apiData =
  api :: "endpoint list option"

record config =
  apiTitle :: string
  apiDescription :: string
  apiVersion :: string
  contactName :: string
  contactUrl :: string
  licenseUrl :: string

text \<open>
  The converter instance: its configuration, \<open>this.serverUrl\<close>, the loaded document
  (\<open>null\<close> until data is fetched) and the ledger. The download URL and the output
  directory only serve the I/O methods and are left out.
\<close>

record converter =
  config :: config
  serverUrl :: string
  apiData :: "apiData option"
  usedOperationIds :: ledger

section \<open>Output: the OpenAPI document\<close>

datatype schema = StringSchema | IntegerSchema | BooleanSchema | ArraySchema schema | ObjectSchema

datatype location = InPath | InQuery | InHeader

record parameter =
  p_name :: string
  p_in :: location
  p_required :: bool
  p_schema :: schema
  p_description :: string

record property =
  pr_schema :: schema
  pr_description :: string

record requestBody =
  rb_required :: bool
  rb_properties :: "string \<rightharpoonup> property"
  rb_requiredFields :: "string list option"

text \<open>The schema of an \<open>application/json\<close> response body.\<close>

datatype content = OpenObject | ObjectWith "string \<rightharpoonup> property" | ErrorObject

record response =
  r_description :: string
  r_content :: "content option"

text \<open>
  Objects used as dictionaries (\<open>paths\<close>, a path item, \<open>groups\<close>, \<open>properties\<close>) are
  created by \<open>{}\<close> and inherit from \<open>Object.prototype\<close>. A map holds their own
  properties, which is what the returned document consists of. Reading a key that is
  not an own property finds the member of \<open>Object.prototype\<close> of that name, if there is
  one: these are the names below.
\<close>

definition objectPrototypeKeys :: "string list" where
  "objectPrototypeKeys =
     [''constructor'', ''__defineGetter__'', ''__defineSetter__'', ''hasOwnProperty'',
      ''__lookupGetter__'', ''__lookupSetter__'', ''isPrototypeOf'', ''propertyIsEnumerable'',
      ''toString'', ''valueOf'', ''__proto__'', ''toLocaleString'']"

text \<open>
  \<open>obj[key] = value\<close> on such an object, for a value that is an object: the key
  \<open>__proto__\<close> is the inherited setter, which replaces the prototype of \<open>obj\<close> and adds no
  own property; any other key becomes an own property.
\<close>

definition setOwn :: "(string \<rightharpoonup> 'v) \<Rightarrow> string \<Rightarrow> 'v \<Rightarrow> (string \<rightharpoonup> 'v)" where
  "setOwn obj key v = (if key = ''__proto__'' then obj else obj(key \<mapsto> v))"

text \<open>
  \<open>target[key] = value\<close> where \<open>target\<close> is the member of \<open>Object.prototype\<close> called
  \<open>member\<close>, in strict mode (a class body). The target is \<open>Object.prototype\<close> itself for
  \<open>__proto__\<close>, whose prototype cannot be replaced; it is the function \<open>Object\<close> for
  \<open>constructor\<close>, and another built-in function otherwise. The properties \<open>name\<close> and
  \<open>length\<close> of a function, and \<open>prototype\<close> of \<open>Object\<close>, are not writable, and
  \<open>caller\<close> and \<open>arguments\<close> are inherited accessors that throw. In these cases the
  assignment throws a \<open>TypeError\<close>; in all others it succeeds, on the built-in object.
\<close>

definition builtinWriteThrows :: "string \<Rightarrow> string \<Rightarrow> bool" where
  "builtinWriteThrows member key =
     (if member = ''__proto__'' then key = ''__proto__''
      else if member = ''constructor''
      then key \<in> set [''name'', ''length'', ''prototype'', ''caller'', ''arguments'']
      else key \<in> set [''name'', ''length'', ''caller'', ''arguments''])"

text \<open>
  A write that lands on a built-in object changes the JavaScript realm for all code that
  runs later. The model does not follow the realm: every step reads the built-in objects
  as a fresh realm has them.
\<close>

text \<open>A security requirement object such as \<open>{ BearerAuth: [] }\<close>.\<close>

type_synonym securityRequirement = "(string \<times> string list) list"

record operation =
  op_summary :: codeUnits
  op_description :: string
  op_operationId :: string
  op_tags :: "string list"
  op_parameters :: "parameter list"
  op_responses :: "string \<rightharpoonup> response"
  op_deprecated :: "bool option"
  op_requestBody :: "requestBody option"
  op_security :: "securityRequirement list option"

record info =
  i_title :: string
  i_description :: string
  i_version :: string
  i_contactName :: string
  i_contactUrl :: string
  i_licenseName :: string
  i_licenseUrl :: string

record server =
  sv_url :: string
  sv_description :: string

record securityScheme =
  ss_type :: string
  ss_scheme :: string
  ss_description :: string

record components =
  c_schemas :: "string \<rightharpoonup> schema"
  c_securitySchemes :: "string \<rightharpoonup> securityScheme"

type_synonym pathItem = "string \<rightharpoonup> operation"

record openAPISpec =
  s_openapi :: string
  s_info :: info
  s_servers :: "server list"
  s_paths :: "string \<rightharpoonup> pathItem"
  s_components :: components

text \<open>
  The errors a conversion can throw: the \<open>Error\<close> of \<open>validateAPIData\<close>, and the
  \<open>TypeError\<close> of the engine.
\<close>

datatype error = NoAPIData | TypeError

section \<open>The converter\<close>

subsection \<open>Validation and the document skeleton\<close>

text \<open>
  \<open>validateAPIData\<close> throws \<open>Error('No API data available. Please fetch data first.')\<close>
  when \<open>this.apiData?.api\<close> is missing; otherwise the model hands back the record list
  that \<open>convertToOpenAPI\<close> reads as \<open>this.apiData.api\<close>.
\<close>

definition validateAPIData :: "converter \<Rightarrow> error + endpoint list" where
  "validateAPIData c =
     (case apiData c of
        None \<Rightarrow> Inl NoAPIData
      | Some d \<Rightarrow> (case api d of None \<Rightarrow> Inl NoAPIData | Some eps \<Rightarrow> Inr eps))"

definition createAPIInfo :: "converter \<Rightarrow> info" where
  "createAPIInfo c =
     \<lparr> i_title = apiTitle (config c), i_description = apiDescription (config c),
       i_version = apiVersion (config c), i_contactName = contactName (config c),
       i_contactUrl = contactUrl (config c), i_licenseName = ''Proprietary'',
       i_licenseUrl = licenseUrl (config c) \<rparr>"

definition createServers :: "converter \<Rightarrow> server list" where
  "createServers c = [\<lparr> sv_url = serverUrl c, sv_description = ''Nitrado API Server'' \<rparr>]"

definition createComponents :: components where
  "createComponents =
     \<lparr> c_schemas = Map.empty,
       c_securitySchemes = [''BearerAuth'' \<mapsto>
         \<lparr> ss_type = ''http'', ss_scheme = ''bearer'',
           ss_description = ''Bearer token authentication'' \<rparr>] \<rparr>"

definition createBaseOpenAPISpec :: "converter \<Rightarrow> openAPISpec" where
  "createBaseOpenAPISpec c =
     \<lparr> s_openapi = ''3.1.1'', s_info = createAPIInfo c, s_servers = createServers c,
       s_paths = Map.empty, s_components = createComponents \<rparr>"

subsection \<open>Path normalization\<close>

text \<open>
  \<open>url.replace(/:(\w+)/g, '{$1}')\<close>: scanning from the left, a colon followed by at
  least one word character is replaced, together with the longest run of word characters
  after it, by that run in braces; scanning goes on after the run.
\<close>

function normalizePath :: "string \<Rightarrow> string" where
  "normalizePath [] = []"
| "normalizePath (c # cs) =
     (if c = CHR '':'' \<and> takeWhile isWordChar cs \<noteq> []
      then ''{'' @ takeWhile isWordChar cs @ ''}'' @ normalizePath (dropWhile isWordChar cs)
      else c # normalizePath cs)"
  by pat_completeness auto
termination
  by (relation "measure length") (auto simp: length_dropWhile_le le_imp_less_Suc)

text \<open>
  \<open>if (!paths[path]) paths[path] = {}\<close>: \<open>paths[path]\<close> is an own path item, or the
  inherited member of \<open>Object.prototype\<close> of that name (an object or a function, so
  truthy), or \<open>undefined\<close>; only in the last case is an empty path item created.
\<close>

definition ensurePathExists :: "(string \<rightharpoonup> pathItem) \<Rightarrow> string \<Rightarrow> (string \<rightharpoonup> pathItem)" where
  "ensurePathExists paths path =
     (case paths path of
        Some item \<Rightarrow> paths
      | None \<Rightarrow> if path \<in> set objectPrototypeKeys then paths else paths(path \<mapsto> Map.empty))"

subsection \<open>Type coercion\<close>

text \<open>The keys of \<open>typeMap\<close> in declaration order, each with the schema it builds.\<close>

definition typeMap :: "(string \<times> schema) list" where
  "typeMap =
     [(''string'', StringSchema), (''number'', IntegerSchema), (''integer'', IntegerSchema),
      (''int'', IntegerSchema), (''boolean'', BooleanSchema), (''bool'', BooleanSchema),
      (''array'', ArraySchema StringSchema), (''object'', ObjectSchema)]"

text \<open>\<open>Object.keys(typeMap).find(key => normalizedType.includes(key))\<close>, with the entry.\<close>

fun findKey :: "string \<Rightarrow> (string \<times> schema) list \<Rightarrow> (string \<times> schema) option" where
  "findKey normalizedType [] = None"
| "findKey normalizedType ((key, mk) # rest) =
     (if includesStr normalizedType key then Some (key, mk) else findKey normalizedType rest)"

definition parseParameterType :: "string option \<Rightarrow> schema" where
  "parseParameterType type =
     (case type of
        None \<Rightarrow> StringSchema
      | Some t \<Rightarrow>
          if t = [] then StringSchema
          else (case findKey (toLowerCase t) typeMap of
                  Some (key, mk) \<Rightarrow> mk
                | None \<Rightarrow> StringSchema))"

subsection \<open>Operation identifier synthesis\<close>

text \<open>\<open>str.replace(/^[a-z]/, letter => letter.toUpperCase())\<close>.\<close>

fun capitalizeFirst :: "string \<Rightarrow> string" where
  "capitalizeFirst [] = []"
| "capitalizeFirst (c # cs) = (if isLowerAZ c then toUpperCaseChar c # cs else c # cs)"

text \<open>
  \<open>str.replace(/_([a-z])/g, (match, letter) => letter.toUpperCase())\<close>: every underscore
  that is followed by a lower-case letter is dropped and the letter is upper-cased;
  scanning goes on after the letter.
\<close>

fun snakeToCamel :: "string \<Rightarrow> string" where
  "snakeToCamel (a # b # cs) =
     (if a = CHR ''_'' \<and> isLowerAZ b then toUpperCaseChar b # snakeToCamel cs
      else a # snakeToCamel (b # cs))"
| "snakeToCamel cs = cs"

definition convertToPascalCase :: "string \<Rightarrow> string" where
  "convertToPascalCase str = capitalizeFirst (snakeToCamel str)"

definition convertParamToPascalCase :: "string \<Rightarrow> string" where
  "convertParamToPascalCase param = capitalizeFirst (snakeToCamel param)"

text \<open>\<open>url.replace(/^\//, '').split('/').filter(part => part)\<close>.\<close>

definition extractPathParts :: "string \<Rightarrow> string list" where
  "extractPathParts url =
     filter (\<lambda>part. part \<noteq> [])
       (split CHR ''/'' (case url of [] \<Rightarrow> [] | c # cs \<Rightarrow> if c = CHR ''/'' then cs else c # cs))"

definition processPathParts :: "string list \<Rightarrow> string list" where
  "processPathParts pathParts =
     map (\<lambda>part. if startsWith part '':'' then convertParamToPascalCase (drop 1 part)
                 else convertToPascalCase part) pathParts"

definition generatePathId :: "string \<Rightarrow> string" where
  "generatePathId url = concat (processPathParts (extractPathParts url))"

definition getGroupPrefix :: "endpoint \<Rightarrow> string" where
  "getGroupPrefix endpoint =
     (case e_group endpoint of
        None \<Rightarrow> []
      | Some grp \<Rightarrow> if grp \<noteq> [] \<and> grp \<noteq> ''Default'' then filter isAlnum grp else [])"

definition genericNames :: "string list" where
  "genericNames =
     [''Details'', ''List'', ''Create'', ''Update'', ''Delete'', ''Get'', ''Post'', ''Put'', ''Patch'',
      ''Restart'', ''Stop'', ''Start'', ''Info'', ''Status'', ''Check'', ''Add'', ''Remove'', ''Set'',
      ''Generate'', ''Enable'', ''Disable'', ''Send'', ''Receive'', ''Upload'', ''Download'']"

definition isGenericOperationName :: "string \<Rightarrow> bool" where
  "isGenericOperationName name =
     (list_ex (\<lambda>generic. includesStr (toLowerCase name) (toLowerCase generic)) genericNames
      \<or> length name < 4)"

definition generateContextualOperationId :: "endpoint \<Rightarrow> string \<Rightarrow> string \<Rightarrow> string" where
  "generateContextualOperationId endpoint cleanName url =
     (let groupPrefix = getGroupPrefix endpoint; pathId = generatePathId url
      in capitalizeFirst (groupPrefix @ pathId @ cleanName))"

text \<open>\<open>processedParts.slice(-2)\<close> is the last two parts.\<close>

definition addPathContextIfNeeded :: "string \<Rightarrow> string \<Rightarrow> string" where
  "addPathContextIfNeeded cleanName url =
     (let pathParts = extractPathParts url; urlDepth = length pathParts
      in if urlDepth > 2
         then (let processedParts = processPathParts pathParts;
                   lastTwoParts = concat (drop (length processedParts - 2) processedParts)
               in capitalizeFirst (lastTwoParts @ cleanName))
         else cleanName)"

text \<open>
  \<open>generateOperationIdFromName\<close> is only called when \<open>endpoint.name\<close> is a string that
  is not blank; the branch for a missing name is never taken from \<open>generateOperationId\<close>.
\<close>

definition generateOperationIdFromName :: "endpoint \<Rightarrow> string \<Rightarrow> string \<Rightarrow> string" where
  "generateOperationIdFromName endpoint method url =
     (let cleanName = filter isAlnum (case e_name endpoint of None \<Rightarrow> [] | Some n \<Rightarrow> n);
          isGeneric = isGenericOperationName cleanName
      in if isGeneric then generateContextualOperationId endpoint cleanName url
         else addPathContextIfNeeded cleanName url)"

definition generateOperationIdFromPath :: "string \<Rightarrow> string \<Rightarrow> string" where
  "generateOperationIdFromPath method url =
     (let pathParts = extractPathParts url;
          processedParts = processPathParts pathParts;
          methodCapitalized = capitalizeFirst method
      in methodCapitalized @ concat processedParts)"

definition generateOperationId :: "endpoint \<Rightarrow> string" where
  "generateOperationId endpoint =
     (let method = toLowerCase (typeOr (e_type endpoint) ''get'');
          url = strOr (e_url endpoint) []
      in if (case e_name endpoint of None \<Rightarrow> False | Some n \<Rightarrow> trim n \<noteq> [])
         then generateOperationIdFromName endpoint method url
         else generateOperationIdFromPath method url)"

subsection \<open>Parameters\<close>

text \<open>
  \<open>path.match(/\{(\w+)\}/g) || []\<close>: the substrings made of an opening brace, a
  non-empty run of word characters and a closing brace, from left to right.
\<close>

function matchBraces :: "string \<Rightarrow> string list" where
  "matchBraces [] = []"
| "matchBraces (c # cs) =
     (if c = CHR ''{'' \<and> takeWhile isWordChar cs \<noteq> []
         \<and> (case dropWhile isWordChar cs of [] \<Rightarrow> False | d # ds \<Rightarrow> d = CHR ''}'')
      then (''{'' @ takeWhile isWordChar cs @ ''}'') # matchBraces (tl (dropWhile isWordChar cs))
      else matchBraces cs)"
  by pat_completeness auto
termination
proof (relation "measure length")
  show "wf (measure length)" by simp
next
  fix c :: char and cs :: string
  have "length (tl (dropWhile isWordChar cs)) \<le> length cs"
    using length_dropWhile_le [of isWordChar cs] by simp
  then show "(tl (dropWhile isWordChar cs), c # cs) \<in> measure length" by simp
next
  fix c :: char and cs :: string
  show "(cs, c # cs) \<in> measure length" by simp
qed

definition extractPathParameters :: "string \<Rightarrow> parameter list" where
  "extractPathParameters path =
     map (\<lambda>param.
            (let paramName = filter (\<lambda>ch. ch \<noteq> CHR ''{'' \<and> ch \<noteq> CHR ''}'') param
             in \<lparr> p_name = paramName, p_in = InPath, p_required = True,
                  p_schema = StringSchema,
                  p_description = ''The '' @ paramName @ '' parameter'' \<rparr>))
         (matchBraces path)"

text \<open>\<open>fields.A || fields.B || []\<close> on arrays: an array, even an empty one, is taken.\<close>

definition fieldsUnder :: "fieldGroups \<Rightarrow> string \<Rightarrow> string \<Rightarrow> field list" where
  "fieldsUnder fs a b =
     (case fs a of
        Some xs \<Rightarrow> xs
      | None \<Rightarrow> (case fs b of Some ys \<Rightarrow> ys | None \<Rightarrow> []))"

definition extractQueryParameters :: "endpoint \<Rightarrow> parameter list" where
  "extractQueryParameters endpoint =
     (case e_parameter endpoint of
        None \<Rightarrow> []
      | Some parameterFields \<Rightarrow>
          map (\<lambda>param. \<lparr> p_name = f_field param, p_in = InQuery,
                         p_required = (\<not> f_optional param),
                         p_schema = parseParameterType (f_type param),
                         p_description = strOr (f_description param) [] \<rparr>)
              (fieldsUnder parameterFields ''Parameter'' ''Query''))"

definition extractHeaderParameters :: "endpoint \<Rightarrow> parameter list" where
  "extractHeaderParameters endpoint =
     (case e_header endpoint of
        None \<Rightarrow> []
      | Some headerFields \<Rightarrow>
          map (\<lambda>param. \<lparr> p_name = f_field param, p_in = InHeader,
                         p_required = (\<not> f_optional param),
                         p_schema = StringSchema,
                         p_description = strOr (f_description param) [] \<rparr>)
              (case headerFields ''Header'' of Some xs \<Rightarrow> xs | None \<Rightarrow> []))"

definition addParameters :: "endpoint \<Rightarrow> operation \<Rightarrow> string \<Rightarrow> operation" where
  "addParameters endpoint operation path =
     (let pathParams = extractPathParameters path;
          queryParams = extractQueryParameters endpoint;
          headerParams = extractHeaderParameters endpoint
      in operation\<lparr>op_parameters :=
           op_parameters operation @ pathParams @ queryParams @ headerParams\<rparr>)"

subsection \<open>Request body, responses, deprecation and security\<close>

definition extractBodyParameters :: "endpoint \<Rightarrow> field list" where
  "extractBodyParameters endpoint =
     (case e_parameter endpoint of
        None \<Rightarrow> []
      | Some parameterFields \<Rightarrow> fieldsUnder parameterFields ''Body'' ''Request'')"

text \<open>The \<open>forEach\<close> of \<open>buildRequestBodySchema\<close>, on the pair \<open>(properties, required)\<close>.\<close>

fun buildRequestBodySchemaLoop ::
  "field list \<Rightarrow> (string \<rightharpoonup> property) \<times> string list \<Rightarrow> (string \<rightharpoonup> property) \<times> string list" where
  "buildRequestBodySchemaLoop [] acc = acc"
| "buildRequestBodySchemaLoop (param # rest) (properties, required) =
     buildRequestBodySchemaLoop rest
       (setOwn properties (f_field param)
          \<lparr> pr_schema = parseParameterType (f_type param),
            pr_description = strOr (f_description param) [] \<rparr>,
        if \<not> f_optional param then required @ [f_field param] else required)"

definition buildRequestBodySchema :: "field list \<Rightarrow> (string \<rightharpoonup> property) \<times> string list" where
  "buildRequestBodySchema bodyParams = buildRequestBodySchemaLoop bodyParams (Map.empty, [])"

definition addRequestBody :: "endpoint \<Rightarrow> operation \<Rightarrow> operation" where
  "addRequestBody endpoint operation =
     (let bodyParams = extractBodyParameters endpoint
      in if length bodyParams = 0 then operation
         else (let (properties, required) = buildRequestBodySchema bodyParams
               in operation\<lparr>op_requestBody := Some
                    \<lparr> rb_required = (length required > 0), rb_properties = properties,
                      rb_requiredFields = (if length required > 0 then Some required else None) \<rparr>\<rparr>))"

definition addRequestBodyIfNeeded :: "endpoint \<Rightarrow> operation \<Rightarrow> string \<Rightarrow> operation" where
  "addRequestBodyIfNeeded endpoint operation method =
     (if method \<in> set [''post'', ''put'', ''patch''] then addRequestBody endpoint operation
      else operation)"

definition extractSuccessFields :: "endpoint \<Rightarrow> field list" where
  "extractSuccessFields endpoint =
     (case e_success endpoint of
        None \<Rightarrow> []
      | Some successFields \<Rightarrow> fieldsUnder successFields ''Success 200'' ''Success'')"

fun buildResponsePropertiesLoop ::
  "field list \<Rightarrow> (string \<rightharpoonup> property) \<Rightarrow> (string \<rightharpoonup> property)" where
  "buildResponsePropertiesLoop [] properties = properties"
| "buildResponsePropertiesLoop (fld # rest) properties =
     buildResponsePropertiesLoop rest
       (setOwn properties (f_field fld)
          \<lparr> pr_schema = parseParameterType (f_type fld),
            pr_description = strOr (f_description fld) [] \<rparr>)"

definition buildResponseProperties :: "field list \<Rightarrow> (string \<rightharpoonup> property)" where
  "buildResponseProperties flds = buildResponsePropertiesLoop flds Map.empty"

definition buildSuccessResponse :: "endpoint \<Rightarrow> response" where
  "buildSuccessResponse endpoint =
     (let successFields = extractSuccessFields endpoint
      in if length successFields = 0
         then \<lparr> r_description = ''Successful operation'', r_content = Some OpenObject \<rparr>
         else \<lparr> r_description = ''Successful operation'',
                r_content = Some (ObjectWith (buildResponseProperties successFields)) \<rparr>)"

definition buildErrorResponse :: "endpoint \<Rightarrow> (string \<rightharpoonup> response)" where
  "buildErrorResponse endpoint =
     (case e_error endpoint of
        None \<Rightarrow> Map.empty
      | Some errorFields \<Rightarrow>
          (let hasErrorFields = (length (fieldsUnder errorFields ''Error 4xx'' ''Error'') > 0)
           in if \<not> hasErrorFields then Map.empty
              else [''400'' \<mapsto> \<lparr> r_description = ''Bad Request'', r_content = Some ErrorObject \<rparr>]))"

definition buildStandardResponses :: "string \<rightharpoonup> response" where
  "buildStandardResponses =
     [''401'' \<mapsto> \<lparr> r_description = ''Unauthorized'', r_content = None \<rparr>,
      ''403'' \<mapsto> \<lparr> r_description = ''Forbidden'', r_content = None \<rparr>,
      ''404'' \<mapsto> \<lparr> r_description = ''Not Found'', r_content = None \<rparr>,
      ''500'' \<mapsto> \<lparr> r_description = ''Internal Server Error'', r_content = None \<rparr>]"

definition addResponses :: "endpoint \<Rightarrow> operation \<Rightarrow> operation" where
  "addResponses endpoint operation =
     (let successResponse = buildSuccessResponse endpoint;
          errorResponse = buildErrorResponse endpoint;
          standardResponses = buildStandardResponses
      in operation\<lparr>op_responses :=
           [''200'' \<mapsto> successResponse] ++ errorResponse ++ standardResponses\<rparr>)"

definition addDeprecationInfo :: "endpoint \<Rightarrow> operation \<Rightarrow> operation" where
  "addDeprecationInfo endpoint operation =
     (case e_deprecated endpoint of
        None \<Rightarrow> operation
      | Some content \<Rightarrow>
          (let operation1 = operation\<lparr>op_deprecated := Some True\<rparr>
           in if strOr content [] \<noteq> []
              then operation1\<lparr>op_description :=
                     op_description operation1 @ [CHR 0x0A, CHR 0x0A] @ ''**Deprecated:** ''
                       @ strOr content []\<rparr>
              else operation1))"

text \<open>\<open>if (!endpoint.public)\<close>: the flag is falsy when it is absent or \<open>false\<close>.\<close>

definition addSecurityIfNeeded :: "endpoint \<Rightarrow> operation \<Rightarrow> operation" where
  "addSecurityIfNeeded endpoint operation =
     (if e_public endpoint \<noteq> Some True
      then operation\<lparr>op_security := Some [[(''BearerAuth'', [])]]\<rparr>
      else operation)"

subsection \<open>Operations, endpoints and the whole document\<close>

text \<open>\<open>buildOperation\<close> reads and extends the ledger, so it takes it and returns it.\<close>

definition buildOperation :: "endpoint \<Rightarrow> string \<Rightarrow> string \<Rightarrow> ledger \<Rightarrow> operation \<times> ledger" where
  "buildOperation endpoint path method used =
     (let baseOperationId = generateOperationId endpoint;
          (operationId, used') = ensureUniqueOperationId baseOperationId used;
          operation =
            \<lparr> op_summary =
                (if strOr (e_title endpoint) [] \<noteq> [] then unitsOf (strOr (e_title endpoint) [])
                 else if strOr (e_name endpoint) [] \<noteq> [] then unitsOf (strOr (e_name endpoint) [])
                 else toUpperCase method @ unitsOf ('' '' @ path)),
              op_description = strOr (e_description endpoint) [],
              op_operationId = operationId,
              op_tags = [strOr (e_group endpoint) ''Default''],
              op_parameters = [],
              op_responses = Map.empty,
              op_deprecated = None,
              op_requestBody = None,
              op_security = None \<rparr>;
          operation1 = addDeprecationInfo endpoint operation;
          operation2 = addParameters endpoint operation1 path;
          operation3 = addRequestBodyIfNeeded endpoint operation2 method;
          operation4 = addResponses endpoint operation3;
          operation5 = addSecurityIfNeeded endpoint operation4
      in (operation5, used'))"

text \<open>
  \<open>openAPISpec.paths[path][normalizedMethod] = operation\<close>. With an own path item the
  operation becomes an own property of it (but for the method key \<open>__proto__\<close>). With no
  own path item, \<open>paths[path]\<close> is the inherited member of \<open>Object.prototype\<close>: the write
  lands on that built-in object, or throws, and the document stays as it is. Were there
  neither, the assignment to a property of \<open>undefined\<close> would throw.
\<close>

definition storeOperation ::
  "(string \<rightharpoonup> pathItem) \<Rightarrow> string \<Rightarrow> string \<Rightarrow> operation \<Rightarrow> error + (string \<rightharpoonup> pathItem)" where
  "storeOperation paths path method operation =
     (case paths path of
        Some item \<Rightarrow> Inr (paths(path \<mapsto> setOwn item method operation))
      | None \<Rightarrow>
          if path \<in> set objectPrototypeKeys
          then (if builtinWriteThrows path method then Inl TypeError else Inr paths)
          else Inl TypeError)"

text \<open>
  \<open>convertEndpoint\<close> returns the document, or the error it throws, and the ledger after
  the call. A record without a URL (absent or empty) is skipped: document and ledger stay
  as they are. The destructuring \<open>{ url, type: method = 'get' }\<close> takes \<open>'get'\<close> only when
  \<open>type\<close> is absent; with \<open>type: null\<close> the call \<open>method.toLowerCase()\<close> throws, before
  the ledger is touched.
\<close>

definition convertEndpoint :: "endpoint \<Rightarrow> openAPISpec \<times> ledger \<Rightarrow> (error + openAPISpec) \<times> ledger" where
  "convertEndpoint endpoint st =
     (let (openAPISpec, used) = st
      in if strOr (e_url endpoint) [] = [] then (Inr openAPISpec, used)
         else (case e_type endpoint of
                 TypeNull \<Rightarrow> (Inl TypeError, used)
               | _ \<Rightarrow>
                  (let url = strOr (e_url endpoint) [];
                       method = (case e_type endpoint of TypeString t \<Rightarrow> t | _ \<Rightarrow> ''get'');
                       path = normalizePath url;
                       normalizedMethod = toLowerCase method;
                       paths1 = ensurePathExists (s_paths openAPISpec) path;
                       (operation, used') = buildOperation endpoint path normalizedMethod used
                   in (case storeOperation paths1 path normalizedMethod operation of
                         Inl err \<Rightarrow> (Inl err, used')
                       | Inr paths2 \<Rightarrow> (Inr (openAPISpec\<lparr>s_paths := paths2\<rparr>), used')))))"

text \<open>
  \<open>this.apiData.api.forEach(endpoint => this.convertEndpoint(endpoint, openAPISpec))\<close>:
  an error thrown for one record ends the loop.
\<close>

fun convertEndpoints :: "endpoint list \<Rightarrow> openAPISpec \<times> ledger \<Rightarrow> (error + openAPISpec) \<times> ledger" where
  "convertEndpoints [] st = (Inr (fst st), snd st)"
| "convertEndpoints (endpoint # rest) st =
     (case convertEndpoint endpoint st of
        (Inl err, used') \<Rightarrow> (Inl err, used')
      | (Inr openAPISpec', used') \<Rightarrow> convertEndpoints rest (openAPISpec', used'))"

text \<open>
  \<open>groupEndpointsByGroup\<close>, the \<open>reduce\<close> over the records: \<open>groups[group]\<close> is the own
  list of the group, or the inherited member of \<open>Object.prototype\<close> of that name, which is
  truthy and has no \<open>push\<close>, so that \<open>groups[group].push(endpoint)\<close> throws.
\<close>

fun groupEndpointsLoop ::
  "endpoint list \<Rightarrow> (string \<rightharpoonup> endpoint list) \<Rightarrow> error + (string \<rightharpoonup> endpoint list)" where
  "groupEndpointsLoop [] groups = Inr groups"
| "groupEndpointsLoop (endpoint # rest) groups =
     (let grp = strOr (e_group endpoint) ''Default''
      in (case groups grp of
            Some members \<Rightarrow> groupEndpointsLoop rest (groups(grp \<mapsto> members @ [endpoint]))
          | None \<Rightarrow>
              if grp \<in> set objectPrototypeKeys then Inl TypeError
              else groupEndpointsLoop rest (groups(grp \<mapsto> [endpoint]))))"

definition groupEndpointsByGroup :: "endpoint list \<Rightarrow> error + (string \<rightharpoonup> endpoint list)" where
  "groupEndpointsByGroup eps = groupEndpointsLoop eps Map.empty"

text \<open>
  \<open>convertToOpenAPI\<close> returns the document, or the error thrown, and the converter after
  the call. The ledger is cleared after the validation and before the records are grouped
  and converted. The groups only feed a log line, but grouping can throw.
\<close>

definition convertToOpenAPI :: "converter \<Rightarrow> (error + openAPISpec) \<times> converter" where
  "convertToOpenAPI c =
     (case validateAPIData c of
        Inl e \<Rightarrow> (Inl e, c)
      | Inr eps \<Rightarrow>
          (let c1 = c\<lparr>usedOperationIds := []\<rparr>;
               openAPISpec = createBaseOpenAPISpec c1
           in (case groupEndpointsByGroup eps of
                 Inl e \<Rightarrow> (Inl e, c1)
               | Inr endpointsByGroup \<Rightarrow>
                   (let (result, used') = convertEndpoints eps (openAPISpec, usedOperationIds c1)
                    in (result, c1\<lparr>usedOperationIds := used'\<rparr>)))))"


section \<open>Sample inputs\<close>

text \<open>An endpoint record with every field absent, and a converter with data loaded.\<close>

definition emptyEndpoint :: endpoint where
  "emptyEndpoint =
     \<lparr> e_type = TypeUndefined, e_url = None, e_title = None, e_name = None, e_group = None,
       e_description = None, e_deprecated = None, e_parameter = None, e_header = None,
       e_success = None, e_error = None, e_public = None \<rparr>"

definition defaultConfig :: config where
  "defaultConfig =
     \<lparr> apiTitle = ''Nitrado API'',
       apiDescription =
         ''Official Nitrado API for managing game servers, domains, and other services'',
       apiVersion = ''1.0.0'', contactName = ''Nitrado Support'',
       contactUrl = ''https://nitrado.net/support'', licenseUrl = ''https://nitrado.net/terms'' \<rparr>"

text \<open>The converter as the constructor leaves it, then with a list of records loaded.\<close>

definition newConverter :: converter where
  "newConverter =
     \<lparr> config = defaultConfig, serverUrl = ''https://api.nitrado.net'', apiData = None,
       usedOperationIds = [] \<rparr>"

definition loaded :: "endpoint list \<Rightarrow> converter" where
  "loaded eps = newConverter\<lparr>apiData := Some \<lparr> api = Some eps \<rparr>\<rparr>"

section \<open>Type coercion\<close>

lemma findKey_first:
  "i < length tbl \<Longrightarrow> includesStr s (fst (tbl ! i))
   \<Longrightarrow> list_all (\<lambda>kv. \<not> includesStr s (fst kv)) (take i tbl)
   \<Longrightarrow> findKey s tbl = Some (tbl ! i)"
proof (induction tbl arbitrary: i)
  case Nil
  then show ?case by simp
next
  case (Cons kv tbl)
  obtain k v where kv: "kv = (k, v)" by (cases kv)
  show ?case
  proof (cases i)
    case 0
    with Cons.prems kv show ?thesis by simp
  next
    case (Suc i')
    with Cons.prems kv have "\<not> includesStr s k" by simp
    moreover from Suc Cons.prems have "findKey s tbl = Some (tbl ! i')"
      by (intro Cons.IH) simp_all
    ultimately show ?thesis using kv Suc by simp
  qed
qed

lemma findKey_none:
  "list_all (\<lambda>kv. \<not> includesStr s (fst kv)) tbl \<Longrightarrow> findKey s tbl = None"
  by (induction tbl) auto

lemma parseParameterType_Some:
  "parseParameterType (Some t) =
     (case findKey (toLowerCase t) typeMap of Some (key, mk) \<Rightarrow> mk | None \<Rightarrow> StringSchema)"
proof (cases "t = []")
  case True
  have "findKey [] typeMap = None" by (simp add: typeMap_def)
  with True show ?thesis by (simp add: parseParameterType_def toLowerCase_def)
next
  case False
  then show ?thesis by (simp add: parseParameterType_def)
qed

lemma parseParameterType_decision:
  "parseParameterType (Some t) =
     (let n = toLowerCase t
      in if includesStr n ''string'' then StringSchema
         else if includesStr n ''number'' \<or> includesStr n ''integer'' \<or> includesStr n ''int''
         then IntegerSchema
         else if includesStr n ''boolean'' \<or> includesStr n ''bool'' then BooleanSchema
         else if includesStr n ''array'' then ArraySchema StringSchema
         else if includesStr n ''object'' then ObjectSchema
         else StringSchema)"
  by (simp add: parseParameterType_Some typeMap_def Let_def)

text \<open>
  Claim C6. Type coercion takes the first key of the table, in declaration order
  (string, number, integer, int, boolean, bool, array, object), that the lower-cased token
  contains, and returns that key's schema: string for \<open>string\<close>; integer for \<open>number\<close>,
  \<open>integer\<close> and \<open>int\<close>; boolean for \<open>boolean\<close> and \<open>bool\<close>; array of strings for
  \<open>array\<close>; object for \<open>object\<close>. A token that contains no key, the empty token and a
  missing token give the string schema. \<open>"Integer"\<close> gives the integer schema and
  \<open>"whatever"\<close> the string schema.
\<close>

theorem parseParameterType_first_match:
  "parseParameterType None = StringSchema
   \<and> parseParameterType (Some []) = StringSchema
   \<and> typeMap =
       [(''string'', StringSchema), (''number'', IntegerSchema), (''integer'', IntegerSchema),
        (''int'', IntegerSchema), (''boolean'', BooleanSchema), (''bool'', BooleanSchema),
        (''array'', ArraySchema StringSchema), (''object'', ObjectSchema)]
   \<and> (i < length typeMap \<and> includesStr (toLowerCase t) (fst (typeMap ! i))
        \<and> list_all (\<lambda>kv. \<not> includesStr (toLowerCase t) (fst kv)) (take i typeMap)
       \<longrightarrow> parseParameterType (Some t) = snd (typeMap ! i))
   \<and> (list_all (\<lambda>kv. \<not> includesStr (toLowerCase u) (fst kv)) typeMap
       \<longrightarrow> parseParameterType (Some u) = StringSchema)
   \<and> parseParameterType (Some w) =
       (if includesStr (toLowerCase w) ''string'' then StringSchema
        else if includesStr (toLowerCase w) ''number'' \<or> includesStr (toLowerCase w) ''integer''
                \<or> includesStr (toLowerCase w) ''int''
        then IntegerSchema
        else if includesStr (toLowerCase w) ''boolean'' \<or> includesStr (toLowerCase w) ''bool''
        then BooleanSchema
        else if includesStr (toLowerCase w) ''array'' then ArraySchema StringSchema
        else if includesStr (toLowerCase w) ''object'' then ObjectSchema
        else StringSchema)
   \<and> parseParameterType (Some ''Integer'') = IntegerSchema
   \<and> parseParameterType (Some ''whatever'') = StringSchema
   \<and> parseParameterType (Some ''String'') = StringSchema
   \<and> parseParameterType (Some ''Number'') = IntegerSchema
   \<and> parseParameterType (Some ''int'') = IntegerSchema
   \<and> parseParameterType (Some ''Boolean'') = BooleanSchema
   \<and> parseParameterType (Some ''bool'') = BooleanSchema
   \<and> parseParameterType (Some ''Array'') = ArraySchema StringSchema
   \<and> parseParameterType (Some ''Object'') = ObjectSchema
   \<and> parseParameterType (Some ''String[]'') = StringSchema
   \<and> parseParameterType (Some ''Object[]'') = ObjectSchema"
proof -
  have a: "parseParameterType None = StringSchema"
    by (simp add: parseParameterType_def)
  have b: "parseParameterType (Some []) = StringSchema"
    by (simp add: parseParameterType_def)
  have c: "typeMap =
       [(''string'', StringSchema), (''number'', IntegerSchema), (''integer'', IntegerSchema),
        (''int'', IntegerSchema), (''boolean'', BooleanSchema), (''bool'', BooleanSchema),
        (''array'', ArraySchema StringSchema), (''object'', ObjectSchema)]"
    by (simp add: typeMap_def)
  have d: "parseParameterType (Some t) = snd (typeMap ! i)"
    if "i < length typeMap" "includesStr (toLowerCase t) (fst (typeMap ! i))"
      "list_all (\<lambda>kv. \<not> includesStr (toLowerCase t) (fst kv)) (take i typeMap)"
  proof -
    from that have f: "findKey (toLowerCase t) typeMap = Some (typeMap ! i)"
      by (rule findKey_first)
    then show ?thesis
      by (simp add: parseParameterType_Some split: prod.splits)
  qed
  have e: "parseParameterType (Some u) = StringSchema"
    if "list_all (\<lambda>kv. \<not> includesStr (toLowerCase u) (fst kv)) typeMap"
    using findKey_none [OF that] by (simp add: parseParameterType_Some)
  have f: "parseParameterType (Some w) =
       (if includesStr (toLowerCase w) ''string'' then StringSchema
        else if includesStr (toLowerCase w) ''number'' \<or> includesStr (toLowerCase w) ''integer''
                \<or> includesStr (toLowerCase w) ''int''
        then IntegerSchema
        else if includesStr (toLowerCase w) ''boolean'' \<or> includesStr (toLowerCase w) ''bool''
        then BooleanSchema
        else if includesStr (toLowerCase w) ''array'' then ArraySchema StringSchema
        else if includesStr (toLowerCase w) ''object'' then ObjectSchema
        else StringSchema)"
    using parseParameterType_decision [of w] by (simp only: Let_def)
  have g: "parseParameterType (Some ''Integer'') = IntegerSchema
    \<and> parseParameterType (Some ''whatever'') = StringSchema
    \<and> parseParameterType (Some ''String'') = StringSchema
    \<and> parseParameterType (Some ''Number'') = IntegerSchema
    \<and> parseParameterType (Some ''int'') = IntegerSchema
    \<and> parseParameterType (Some ''Boolean'') = BooleanSchema
    \<and> parseParameterType (Some ''bool'') = BooleanSchema
    \<and> parseParameterType (Some ''Array'') = ArraySchema StringSchema
    \<and> parseParameterType (Some ''Object'') = ObjectSchema
    \<and> parseParameterType (Some ''String[]'') = StringSchema
    \<and> parseParameterType (Some ''Object[]'') = ObjectSchema"
    by code_simp
  from a b c d e f g show ?thesis by blast
qed

text \<open>
  The first-match rule at the token \<open>"BigInteger"\<close> (key \<open>integer\<close>, index 2, is the first
  one it contains) and the default at the token \<open>"Float"\<close>.
\<close>

theorem parseParameterType_first_match_witness:
  "2 < length typeMap
   \<and> includesStr (toLowerCase ''BigInteger'') (fst (typeMap ! 2))
   \<and> list_all (\<lambda>kv. \<not> includesStr (toLowerCase ''BigInteger'') (fst kv)) (take 2 typeMap)
   \<and> list_all (\<lambda>kv. \<not> includesStr (toLowerCase ''Float'') (fst kv)) typeMap
   \<and> parseParameterType (Some ''BigInteger'') = IntegerSchema
   \<and> parseParameterType (Some ''Float'') = StringSchema"
proof -
  have h1: "2 < length typeMap" by code_simp
  have h2: "includesStr (toLowerCase ''BigInteger'') (fst (typeMap ! 2))" by code_simp
  have h3: "list_all (\<lambda>kv. \<not> includesStr (toLowerCase ''BigInteger'') (fst kv)) (take 2 typeMap)"
    by code_simp
  have h4: "list_all (\<lambda>kv. \<not> includesStr (toLowerCase ''Float'') (fst kv)) typeMap"
    by code_simp
  have h5: "snd (typeMap ! 2) = IntegerSchema" by code_simp
  from parseParameterType_first_match [of 2 "''BigInteger''" "''Float''"] h1 h2 h3 h4
  have "parseParameterType (Some ''BigInteger'') = snd (typeMap ! 2)
      \<and> parseParameterType (Some ''Float'') = StringSchema"
    by blast
  with h1 h2 h3 h4 h5 show ?thesis by (simp only:)
qed

section \<open>Operations of the document and their identifiers\<close>

text \<open>\<open>spec.paths[path][method]\<close>, when both keys are own properties.\<close>

definition operationAt :: "openAPISpec \<Rightarrow> string \<Rightarrow> string \<Rightarrow> operation option" where
  "operationAt spec path method =
     (case s_paths spec path of None \<Rightarrow> None | Some item \<Rightarrow> item method)"

text \<open>
  The path and the method key that \<open>convertEndpoint\<close> computes for a record whose
  \<open>type\<close> is not \<open>null\<close>.
\<close>

definition endpointPath :: "endpoint \<Rightarrow> string" where
  "endpointPath endpoint = normalizePath (strOr (e_url endpoint) [])"

definition endpointMethod :: "endpoint \<Rightarrow> string" where
  "endpointMethod endpoint =
     toLowerCase (case e_type endpoint of TypeString t \<Rightarrow> t | _ \<Rightarrow> ''get'')"

text \<open>
  Whether the assignment \<open>paths[path][method] = operation\<close> adds the operation to the
  document: the method key is not \<open>__proto__\<close>, and the path has a path item of its own
  or does not name a member of \<open>Object.prototype\<close>.
\<close>

definition storesAt :: "(string \<rightharpoonup> pathItem) \<Rightarrow> string \<Rightarrow> string \<Rightarrow> bool" where
  "storesAt paths path method =
     (method \<noteq> ''__proto__'' \<and> (paths path \<noteq> None \<or> path \<notin> set objectPrototypeKeys))"

lemma op_operationId_addDeprecationInfo [simp]:
  "op_operationId (addDeprecationInfo e operation) = op_operationId operation"
  by (simp add: addDeprecationInfo_def Let_def split: option.splits)

lemma op_operationId_addParameters [simp]:
  "op_operationId (addParameters e operation path) = op_operationId operation"
  by (simp add: addParameters_def Let_def)

lemma op_operationId_addRequestBodyIfNeeded [simp]:
  "op_operationId (addRequestBodyIfNeeded e operation m) = op_operationId operation"
  by (simp add: addRequestBodyIfNeeded_def addRequestBody_def Let_def split: prod.splits)

lemma op_operationId_addResponses [simp]:
  "op_operationId (addResponses e operation) = op_operationId operation"
  by (simp add: addResponses_def Let_def)

lemma op_operationId_addSecurityIfNeeded [simp]:
  "op_operationId (addSecurityIfNeeded e operation) = op_operationId operation"
  by (simp add: addSecurityIfNeeded_def)

lemma buildOperation_id:
  "op_operationId (fst (buildOperation e path m used))
     = fst (ensureUniqueOperationId (generateOperationId e) used)
   \<and> snd (buildOperation e path m used)
     = snd (ensureUniqueOperationId (generateOperationId e) used)"
  by (simp add: buildOperation_def Let_def split: prod.splits)

lemma convertEndpoint_skip:
  "strOr (e_url e) [] = [] \<Longrightarrow> convertEndpoint e st = (Inr (fst st), snd st)"
  by (cases st) (simp add: convertEndpoint_def)

lemma convertEndpoint_null:
  "strOr (e_url e) [] \<noteq> [] \<Longrightarrow> e_type e = TypeNull
   \<Longrightarrow> convertEndpoint e st = (Inl TypeError, snd st)"
  by (cases st) (simp add: convertEndpoint_def)

lemma convertEndpoint_convert:
  "strOr (e_url e) [] \<noteq> [] \<Longrightarrow> e_type e \<noteq> TypeNull \<Longrightarrow>
   convertEndpoint e (spec, used) =
     (case storeOperation (ensurePathExists (s_paths spec) (endpointPath e)) (endpointPath e)
             (endpointMethod e) (fst (buildOperation e (endpointPath e) (endpointMethod e) used)) of
        Inl err \<Rightarrow> (Inl err, snd (buildOperation e (endpointPath e) (endpointMethod e) used))
      | Inr paths2 \<Rightarrow>
          (Inr (spec\<lparr>s_paths := paths2\<rparr>),
           snd (buildOperation e (endpointPath e) (endpointMethod e) used)))"
  unfolding endpointPath_def endpointMethod_def
  by (cases "e_type e") (auto simp: convertEndpoint_def Let_def split: prod.splits sum.splits)

lemma storeOperation_lookup:
  "storeOperation (ensurePathExists paths path) path m operation = Inr paths2 \<Longrightarrow>
   (case paths2 p of None \<Rightarrow> None | Some item \<Rightarrow> item k) =
     (if storesAt paths path m \<and> p = path \<and> k = m then Some operation
      else (case paths p of None \<Rightarrow> None | Some item \<Rightarrow> item k))"
  by (auto simp: storeOperation_def ensurePathExists_def storesAt_def setOwn_def
      split: option.splits if_splits)

lemma storeOperation_stores:
  "paths path \<noteq> None \<or> path \<notin> set objectPrototypeKeys \<Longrightarrow>
   \<exists>paths2. storeOperation (ensurePathExists paths path) path m operation = Inr paths2"
  by (auto simp: storeOperation_def ensurePathExists_def split: option.splits)

lemma storeOperation_error:
  "storeOperation paths path m operation \<noteq> Inl NoAPIData"
  by (simp add: storeOperation_def split: option.splits)

lemma operationAt_convertEndpoint:
  assumes "strOr (e_url e) [] \<noteq> []" "convertEndpoint e (spec, used) = (Inr spec', used')"
  shows "operationAt spec' p m =
     (if storesAt (s_paths spec) (endpointPath e) (endpointMethod e)
         \<and> p = endpointPath e \<and> m = endpointMethod e
      then Some (fst (buildOperation e (endpointPath e) (endpointMethod e) used))
      else operationAt spec p m)"
proof -
  from assms have t: "e_type e \<noteq> TypeNull"
    by (auto simp: convertEndpoint_null)
  let ?op = "fst (buildOperation e (endpointPath e) (endpointMethod e) used)"
  from assms(2) convertEndpoint_convert [OF assms(1) t, of spec used]
  obtain paths2 where s: "storeOperation (ensurePathExists (s_paths spec) (endpointPath e))
      (endpointPath e) (endpointMethod e) ?op = Inr paths2" and d: "spec' = spec\<lparr>s_paths := paths2\<rparr>"
    by (auto split: sum.splits)
  from storeOperation_lookup [OF s, where p = p and k = m] d show ?thesis
    by (simp add: operationAt_def)
qed

lemma ledger_convertEndpoint:
  "strOr (e_url e) [] \<noteq> [] \<Longrightarrow> e_type e \<noteq> TypeNull \<Longrightarrow>
   snd (convertEndpoint e (spec, used)) =
     used @ [op_operationId (fst (buildOperation e (endpointPath e) (endpointMethod e) used))]
   \<and> op_operationId (fst (buildOperation e (endpointPath e) (endpointMethod e) used)) \<notin> set used"
proof -
  assume u: "strOr (e_url e) [] \<noteq> []" and t: "e_type e \<noteq> TypeNull"
  obtain uid used' where r: "ensureUniqueOperationId (generateOperationId e) used = (uid, used')"
    by (cases "ensureUniqueOperationId (generateOperationId e) used")
  from ensureUniqueOperationId_fresh [OF r] r show ?thesis
    by (simp add: convertEndpoint_convert [OF u t] buildOperation_id split: sum.splits)
qed

lemma convertEndpoint_error: "fst (convertEndpoint e st) \<noteq> Inl NoAPIData"
proof (cases "strOr (e_url e) [] = []")
  case True
  then show ?thesis by (simp add: convertEndpoint_skip)
next
  case False
  note u = False
  obtain spec used where st: "st = (spec, used)" by (cases st)
  show ?thesis
  proof (cases "e_type e = TypeNull")
    case True
    with u show ?thesis by (simp add: convertEndpoint_null)
  next
    case False
    with u st show ?thesis
      using storeOperation_error
      by (auto simp: convertEndpoint_convert split: sum.splits)
  qed
qed

lemma convertEndpoints_error: "fst (convertEndpoints eps st) \<noteq> Inl NoAPIData"
proof (induction eps arbitrary: st)
  case Nil
  show ?case by simp
next
  case (Cons e eps)
  obtain r used' where c: "convertEndpoint e st = (r, used')" by (cases "convertEndpoint e st")
  show ?case
  proof (cases r)
    case (Inl err)
    with c convertEndpoint_error [of e st] show ?thesis by auto
  next
    case (Inr spec')
    with c Cons.IH [of "(spec', used')"] show ?thesis by simp
  qed
qed

lemma groupEndpointsLoop_error: "groupEndpointsLoop eps groups \<noteq> Inl NoAPIData"
proof (induction eps arbitrary: groups)
  case Nil
  show ?case by simp
next
  case (Cons e eps)
  show ?case
    by (simp add: Let_def Cons.IH split: option.splits)
qed

section \<open>The ledger and the reset at the start of a conversion\<close>

lemma validateAPIData_ledger [simp]:
  "validateAPIData (c\<lparr>usedOperationIds := used\<rparr>) = validateAPIData c"
  by (simp add: validateAPIData_def)

lemma createBaseOpenAPISpec_ledger [simp]:
  "createBaseOpenAPISpec (c\<lparr>usedOperationIds := used\<rparr>) = createBaseOpenAPISpec c"
  by (simp add: createBaseOpenAPISpec_def createAPIInfo_def createServers_def)

lemma convertToOpenAPI_Inr:
  "validateAPIData c = Inr eps \<Longrightarrow>
   convertToOpenAPI c =
     (case groupEndpointsByGroup eps of
        Inl e \<Rightarrow> (Inl e, c\<lparr>usedOperationIds := []\<rparr>)
      | Inr endpointsByGroup \<Rightarrow>
          (fst (convertEndpoints eps (createBaseOpenAPISpec c, [])),
           c\<lparr>usedOperationIds := snd (convertEndpoints eps (createBaseOpenAPISpec c, []))\<rparr>))"
  by (simp add: convertToOpenAPI_def Let_def split: prod.splits sum.splits)

lemma convertToOpenAPI_Inl:
  "validateAPIData c = Inl e \<Longrightarrow> convertToOpenAPI c = (Inl e, c)"
  by (simp add: convertToOpenAPI_def)


lemma convertToOpenAPI_state:
  "\<exists>used. snd (convertToOpenAPI c) = c\<lparr>usedOperationIds := used\<rparr>"
proof (cases "validateAPIData c")
  case (Inl e)
  have "c = c\<lparr>usedOperationIds := usedOperationIds c\<rparr>" by simp
  with Inl show ?thesis by (metis convertToOpenAPI_Inl snd_conv)
next
  case (Inr eps)
  show ?thesis
  proof (cases "groupEndpointsByGroup eps")
    case (Inl e)
    with Inr have "snd (convertToOpenAPI c) = c\<lparr>usedOperationIds := []\<rparr>"
      by (simp add: convertToOpenAPI_Inr)
    then show ?thesis by blast
  next
    case (Inr g)
    with \<open>validateAPIData c = Inr eps\<close> have "snd (convertToOpenAPI c)
        = c\<lparr>usedOperationIds := snd (convertEndpoints eps (createBaseOpenAPISpec c, []))\<rparr>"
      by (simp add: convertToOpenAPI_Inr)
    then show ?thesis by blast
  qed
qed

lemma convertToOpenAPI_document:
  "fst (convertToOpenAPI c) = Inr doc \<Longrightarrow>
   \<exists>eps. validateAPIData c = Inr eps
     \<and> fst (convertEndpoints eps (createBaseOpenAPISpec c, [])) = Inr doc"
proof (cases "validateAPIData c")
  case (Inl e)
  assume "fst (convertToOpenAPI c) = Inr doc"
  with Inl show ?thesis by (simp add: convertToOpenAPI_Inl)
next
  case (Inr eps)
  assume "fst (convertToOpenAPI c) = Inr doc"
  with Inr show ?thesis
    by (cases "groupEndpointsByGroup eps") (simp_all add: convertToOpenAPI_Inr)
qed

lemma validateAPIData_loaded: "validateAPIData (loaded eps) = Inr eps"
  by (simp add: validateAPIData_def loaded_def newConverter_def)

lemma convertToOpenAPI_no_data_lemma:
  "fst (convertToOpenAPI (loaded eps)) \<noteq> Inl NoAPIData"
proof (cases "groupEndpointsByGroup eps")
  case (Inl e)
  with groupEndpointsLoop_error [of eps Map.empty] have "e \<noteq> NoAPIData"
    by (auto simp: groupEndpointsByGroup_def)
  with Inl show ?thesis by (simp add: convertToOpenAPI_Inr [OF validateAPIData_loaded])
next
  case (Inr g)
  with convertEndpoints_error [of eps "(createBaseOpenAPISpec (loaded eps), [])"] show ?thesis
    by (simp add: convertToOpenAPI_Inr [OF validateAPIData_loaded])
qed



section \<open>Conversion without data\<close>

text \<open>
  Claim C8. With no document loaded, or with a document that has no \<open>api\<close> list,
  \<open>convertToOpenAPI\<close> ends with the error "No API data available" and hands back no
  document, the converter being left as it was. With a list loaded it never ends with
  that error.
\<close>

theorem convertToOpenAPI_no_data:
  "(apiData c = None \<longrightarrow> convertToOpenAPI c = (Inl NoAPIData, c))
   \<and> (apiData c = Some d \<and> api d = None \<longrightarrow> convertToOpenAPI c = (Inl NoAPIData, c))
   \<and> (apiData c = Some d \<and> api d = Some eps \<longrightarrow> fst (convertToOpenAPI c) \<noteq> Inl NoAPIData)"
proof -
  have a: "apiData c = None \<longrightarrow> validateAPIData c = Inl NoAPIData"
    by (simp add: validateAPIData_def)
  have b: "apiData c = Some d \<and> api d = None \<longrightarrow> validateAPIData c = Inl NoAPIData"
    by (simp add: validateAPIData_def)
  have "fst (convertToOpenAPI c) \<noteq> Inl NoAPIData" if "apiData c = Some d \<and> api d = Some eps"
  proof -
    from that have v: "validateAPIData c = Inr eps" by (simp add: validateAPIData_def)
    show ?thesis
    proof (cases "groupEndpointsByGroup eps")
      case (Inl e)
      with groupEndpointsLoop_error [of eps Map.empty] have "e \<noteq> NoAPIData"
        by (auto simp: groupEndpointsByGroup_def)
      with Inl show ?thesis by (simp add: convertToOpenAPI_Inr [OF v])
    next
      case (Inr g)
      with convertEndpoints_error [of eps "(createBaseOpenAPISpec c, [])"] show ?thesis
        by (simp add: convertToOpenAPI_Inr [OF v])
    qed
  qed
  with a b show ?thesis
    by (auto simp: convertToOpenAPI_Inl)
qed

text \<open>
  The converter fresh from its constructor, one holding a document without \<open>api\<close>, and
  one holding an empty list of records, which returns a document.
\<close>

theorem convertToOpenAPI_no_data_witness:
  "apiData newConverter = None
   \<and> convertToOpenAPI newConverter = (Inl NoAPIData, newConverter)
   \<and> apiData (newConverter\<lparr>apiData := Some \<lparr> api = None \<rparr>\<rparr>) = Some \<lparr> api = None \<rparr>
   \<and> api \<lparr> api = None \<rparr> = None
   \<and> convertToOpenAPI (newConverter\<lparr>apiData := Some \<lparr> api = None \<rparr>\<rparr>)
       = (Inl NoAPIData, newConverter\<lparr>apiData := Some \<lparr> api = None \<rparr>\<rparr>)
   \<and> apiData (loaded []) = Some \<lparr> api = Some [] \<rparr>
   \<and> fst (convertToOpenAPI (loaded [])) \<noteq> Inl NoAPIData
   \<and> \<not> isl (fst (convertToOpenAPI (loaded [])))"
proof -
  have h1: "apiData newConverter = None" by (simp add: newConverter_def)
  have h2: "apiData (newConverter\<lparr>apiData := Some \<lparr> api = None \<rparr>\<rparr>) = Some \<lparr> api = None \<rparr>"
    by simp
  have h3: "apiData (loaded []) = Some \<lparr> api = Some [] \<rparr>" by (simp add: loaded_def)
  have h4: "\<not> isl (fst (convertToOpenAPI (loaded [])))" by code_simp
  from convertToOpenAPI_no_data [of newConverter undefined undefined]
    convertToOpenAPI_no_data [of "newConverter\<lparr>apiData := Some \<lparr> api = None \<rparr>\<rparr>" "\<lparr> api = None \<rparr>" undefined]
    convertToOpenAPI_no_data [of "loaded []" "\<lparr> api = Some [] \<rparr>" "[]"]
    h1 h2 h3 h4
  show ?thesis by simp
qed

section \<open>Uniqueness of the identifiers in a document\<close>

text \<open>
  The invariant of the loop over the records: every identifier in the document is in the
  ledger, and operations at different places of the document have different identifiers.
\<close>

definition idsRegistered :: "openAPISpec \<times> ledger \<Rightarrow> bool" where
  "idsRegistered st =
     (\<forall>p m operation. operationAt (fst st) p m = Some operation
        \<longrightarrow> op_operationId operation \<in> set (snd st))"

definition idsDistinct :: "openAPISpec \<Rightarrow> bool" where
  "idsDistinct spec =
     (\<forall>p m operation p' m' operation'.
        operationAt spec p m = Some operation \<and> operationAt spec p' m' = Some operation'
        \<and> (p, m) \<noteq> (p', m')
        \<longrightarrow> op_operationId operation \<noteq> op_operationId operation')"

lemma convertEndpoint_invariant:
  assumes "idsRegistered (spec, used)" "idsDistinct spec"
    and c: "convertEndpoint e (spec, used) = (Inr spec', used')"
  shows "idsRegistered (spec', used') \<and> idsDistinct spec'"
proof (cases "strOr (e_url e) [] = []")
  case True
  with assms show ?thesis by (simp add: convertEndpoint_skip)
next
  case False
  from c False have t: "e_type e \<noteq> TypeNull"
    by (auto simp: convertEndpoint_null)
  let ?op = "fst (buildOperation e (endpointPath e) (endpointMethod e) used)"
  let ?new = "\<lambda>p m. storesAt (s_paths spec) (endpointPath e) (endpointMethod e)
      \<and> p = endpointPath e \<and> m = endpointMethod e"
  have at: "operationAt spec' p m = (if ?new p m then Some ?op else operationAt spec p m)" for p m
    using operationAt_convertEndpoint [OF False c, of p m] by simp
  from ledger_convertEndpoint [OF False t, of spec used] c
  have l: "used' = used @ [op_operationId ?op]"
    and f: "op_operationId ?op \<notin> set used" by simp_all
  from assms(1) have reg: "\<And>p m operation. operationAt spec p m = Some operation
      \<Longrightarrow> op_operationId operation \<in> set used"
    by (simp add: idsRegistered_def)
  from assms(2) have dis: "\<And>p m operation p' m' operation'.
      operationAt spec p m = Some operation \<Longrightarrow> operationAt spec p' m' = Some operation'
      \<Longrightarrow> (p, m) \<noteq> (p', m') \<Longrightarrow> op_operationId operation \<noteq> op_operationId operation'"
    unfolding idsDistinct_def by blast
  have a: "idsRegistered (spec', used')"
    unfolding idsRegistered_def using reg by (auto simp: at l split: if_splits)
  have b: "idsDistinct spec'"
    unfolding idsDistinct_def
  proof (intro allI impI, elim conjE)
    fix p m operation p' m' operation'
    assume 1: "operationAt spec' p m = Some operation"
      and 2: "operationAt spec' p' m' = Some operation'"
      and 3: "(p, m) \<noteq> (p', m')"
    show "op_operationId operation \<noteq> op_operationId operation'"
    proof (cases "?new p m")
      case True
      with 3 have n: "\<not> ?new p' m'" by auto
      from True 1 have "operation = ?op" by (simp add: at)
      moreover from n 2 have "operationAt spec p' m' = Some operation'"
        by (auto simp: at split: if_splits)
      then have "op_operationId operation' \<in> set used" by (rule reg)
      ultimately show ?thesis using f by auto
    next
      case False
      note n = False
      from n 1 have o: "operationAt spec p m = Some operation"
        by (auto simp: at split: if_splits)
      show ?thesis
      proof (cases "?new p' m'")
        case True
        with 2 have "operation' = ?op" by (simp add: at)
        moreover from o have "op_operationId operation \<in> set used" by (rule reg)
        ultimately show ?thesis using f by auto
      next
        case False
        with 2 have "operationAt spec p' m' = Some operation'"
          by (auto simp: at split: if_splits)
        from dis [OF o this 3] show ?thesis .
      qed
    qed
  qed
  from a b show ?thesis by simp
qed

lemma convertEndpoints_invariant:
  "idsRegistered (spec, used) \<Longrightarrow> idsDistinct spec
   \<Longrightarrow> convertEndpoints eps (spec, used) = (Inr spec', used')
   \<Longrightarrow> idsRegistered (spec', used') \<and> idsDistinct spec'"
proof (induction eps arbitrary: spec used)
  case Nil
  then show ?case by simp
next
  case (Cons e eps)
  obtain r used1 where c: "convertEndpoint e (spec, used) = (r, used1)"
    by (cases "convertEndpoint e (spec, used)")
  show ?case
  proof (cases r)
    case (Inl err)
    with c Cons.prems(3) show ?thesis by simp
  next
    case (Inr spec1)
    with c have c1: "convertEndpoint e (spec, used) = (Inr spec1, used1)" by simp
    from convertEndpoint_invariant [OF Cons.prems(1,2) c1]
    have "idsRegistered (spec1, used1)" "idsDistinct spec1" by simp_all
    moreover from c1 Cons.prems(3) have "convertEndpoints eps (spec1, used1) = (Inr spec', used')"
      by simp
    ultimately show ?thesis by (rule Cons.IH)
  qed
qed

lemma operationAt_base [simp]: "operationAt (createBaseOpenAPISpec c) p m = None"
  by (simp add: operationAt_def createBaseOpenAPISpec_def)

text \<open>
  Claim C1. In the document that one call of \<open>convertToOpenAPI\<close> returns, two operations
  stored at different places (path and method) have different operation identifiers,
  whatever the input records are.
\<close>

theorem convertToOpenAPI_unique_ids:
  "fst (convertToOpenAPI c) = Inr doc
   \<and> operationAt doc p m = Some operation \<and> operationAt doc p' m' = Some operation'
   \<and> (p, m) \<noteq> (p', m')
   \<longrightarrow> op_operationId operation \<noteq> op_operationId operation'"
proof (intro impI, elim conjE)
  assume "fst (convertToOpenAPI c) = Inr doc"
  from convertToOpenAPI_document [OF this] obtain eps
    where "fst (convertEndpoints eps (createBaseOpenAPISpec c, [])) = Inr doc" by blast
  then obtain used' where r: "convertEndpoints eps (createBaseOpenAPISpec c, []) = (Inr doc, used')"
    by (cases "convertEndpoints eps (createBaseOpenAPISpec c, [])") simp
  have "idsRegistered (createBaseOpenAPISpec c, [])" by (simp add: idsRegistered_def)
  moreover have "idsDistinct (createBaseOpenAPISpec c)" by (simp add: idsDistinct_def)
  ultimately have "idsDistinct doc"
    using convertEndpoints_invariant [OF _ _ r] by blast
  moreover assume "operationAt doc p m = Some operation"
    "operationAt doc p' m' = Some operation'" "(p, m) \<noteq> (p', m')"
  ultimately show "op_operationId operation \<noteq> op_operationId operation'"
    unfolding idsDistinct_def by blast
qed

text \<open>Two records named \<open>Details\<close> in one group whose URLs differ by a trailing slash.\<close>

definition logsDetails :: endpoint where
  "logsDetails = emptyEndpoint\<lparr>e_type := TypeString ''get'', e_url := Some ''/services/:id/logs'',
     e_name := Some ''Details'', e_group := Some ''Service''\<rparr>"

definition logsDetailsSlash :: endpoint where
  "logsDetailsSlash = logsDetails\<lparr>e_url := Some ''/services/:id/logs/''\<rparr>"

text \<open>The identifier of the operation at a place of a returned document.\<close>

definition idAt :: "error + openAPISpec \<Rightarrow> string \<Rightarrow> string \<Rightarrow> string option" where
  "idAt result path method =
     (case result of
        Inl err \<Rightarrow> None
      | Inr doc \<Rightarrow> map_option op_operationId (operationAt doc path method))"

lemma idAt_Some:
  "idAt result p m = Some i \<Longrightarrow>
   \<exists>doc operation. result = Inr doc \<and> operationAt doc p m = Some operation
     \<and> op_operationId operation = i"
  by (cases result) (auto simp: idAt_def)

text \<open>
  Both records get the contextual identifier \<open>ServiceServicesIdLogsDetails\<close>; the ledger
  gives the second one the suffix 2, and the two operations of the document differ.
\<close>

theorem convertToOpenAPI_unique_ids_witness:
  "\<exists>doc operation operation'.
     fst (convertToOpenAPI (loaded [logsDetails, logsDetailsSlash])) = Inr doc
     \<and> operationAt doc ''/services/{id}/logs'' ''get'' = Some operation
     \<and> operationAt doc ''/services/{id}/logs/'' ''get'' = Some operation'
     \<and> (''/services/{id}/logs'', ''get'') \<noteq> (''/services/{id}/logs/'', ''get'')
     \<and> op_operationId operation = ''ServiceServicesIdLogsDetails''
     \<and> op_operationId operation' = ''ServiceServicesIdLogsDetails2''
     \<and> op_operationId operation \<noteq> op_operationId operation'"
proof -
  let ?r = "fst (convertToOpenAPI (loaded [logsDetails, logsDetailsSlash]))"
  have "idAt ?r ''/services/{id}/logs'' ''get'' = Some ''ServiceServicesIdLogsDetails''"
    by code_simp
  from idAt_Some [OF this] obtain doc o1 where d: "?r = Inr doc"
    and o1: "operationAt doc ''/services/{id}/logs'' ''get'' = Some o1"
      "op_operationId o1 = ''ServiceServicesIdLogsDetails''"
    by blast
  have "idAt ?r ''/services/{id}/logs/'' ''get'' = Some ''ServiceServicesIdLogsDetails2''"
    by code_simp
  from idAt_Some [OF this] d obtain o2
    where o2: "operationAt doc ''/services/{id}/logs/'' ''get'' = Some o2"
      "op_operationId o2 = ''ServiceServicesIdLogsDetails2''"
    by auto
  have n: "(''/services/{id}/logs'', ''get'') \<noteq> (''/services/{id}/logs/'', ''get'')" by simp
  from convertToOpenAPI_unique_ids [of "loaded [logsDetails, logsDetailsSlash]" doc
      "''/services/{id}/logs''" "''get''" o1 "''/services/{id}/logs/''" "''get''" o2] d o1 o2 n
  have "op_operationId o1 \<noteq> op_operationId o2" by blast
  with d o1 o2 n show ?thesis by blast
qed

section \<open>Records whose operation is stored\<close>


lemma convertEndpoint_stores:
  assumes u: "strOr (e_url e) [] \<noteq> []" and t: "e_type e \<noteq> TypeNull"
    and k: "endpointPath e \<notin> set objectPrototypeKeys"
  shows "\<exists>spec'. convertEndpoint e (spec, used) =
      (Inr spec', used @ [op_operationId (fst (buildOperation e (endpointPath e) (endpointMethod e) used))])
    \<and> (\<forall>p m. operationAt spec' p m =
          (if endpointMethod e \<noteq> ''__proto__'' \<and> p = endpointPath e \<and> m = endpointMethod e
           then Some (fst (buildOperation e (endpointPath e) (endpointMethod e) used))
           else operationAt spec p m))"
proof -
  let ?op = "fst (buildOperation e (endpointPath e) (endpointMethod e) used)"
  from k storeOperation_stores [of "s_paths spec" "endpointPath e" "endpointMethod e" ?op]
  obtain paths2 where s: "storeOperation (ensurePathExists (s_paths spec) (endpointPath e))
      (endpointPath e) (endpointMethod e) ?op = Inr paths2"
    by blast
  from ledger_convertEndpoint [OF u t, of spec used]
  have l: "snd (convertEndpoint e (spec, used)) = used @ [op_operationId ?op]" by simp
  from s have "fst (convertEndpoint e (spec, used)) = Inr (spec\<lparr>s_paths := paths2\<rparr>)"
    by (simp add: convertEndpoint_convert [OF u t])
  with l have c: "convertEndpoint e (spec, used)
      = (Inr (spec\<lparr>s_paths := paths2\<rparr>), used @ [op_operationId ?op])"
    by (cases "convertEndpoint e (spec, used)") simp
  from k have st: "storesAt (s_paths spec) (endpointPath e) (endpointMethod e)
      = (endpointMethod e \<noteq> ''__proto__'')"
    by (simp add: storesAt_def)
  have "operationAt (spec\<lparr>s_paths := paths2\<rparr>) p m =
      (if endpointMethod e \<noteq> ''__proto__'' \<and> p = endpointPath e \<and> m = endpointMethod e
       then Some ?op else operationAt spec p m)" for p m
    using operationAt_convertEndpoint [OF u c, of p m] by (simp add: st)
  with c show ?thesis by blast
qed

section \<open>Security requirements\<close>





definition companyStats :: endpoint where
  "companyStats = emptyEndpoint\<lparr>e_type := TypeString ''get'', e_url := Some ''/company/stats''\<rparr>"


section \<open>Records without a method\<close>

lemma startsWith_append [simp]: "startsWith (k @ s) k"
  by (induction k) simp_all

lemma ensureUniqueOperationId_cases:
  "(baseId \<notin> set used \<longrightarrow> fst (ensureUniqueOperationId baseId used) = baseId)
   \<and> (baseId \<in> set used \<longrightarrow>
        (\<exists>n\<ge>2. fst (ensureUniqueOperationId baseId used) = baseId @ toStringNat n))"
  using uniqueIdLoop_least [of 2 used baseId]
  by (auto simp: ensureUniqueOperationId_def Let_def)

lemma ensureUniqueOperationId_extends:
  "\<exists>s. fst (ensureUniqueOperationId baseId used) = baseId @ s"
  using ensureUniqueOperationId_cases [of baseId used] by (cases "baseId \<in> set used") auto

lemma toLowerCase_get: "toLowerCase ''get'' = ''get''"
  by code_simp

lemma endpointMethod_absent: "e_type e = TypeUndefined \<Longrightarrow> endpointMethod e = ''get''"
  by (simp add: endpointMethod_def toLowerCase_get)

lemma generateOperationId_no_name:
  "e_name e = None \<or> (\<exists>n. e_name e = Some n \<and> trim n = []) \<Longrightarrow>
   generateOperationId e =
     capitalizeFirst (toLowerCase (typeOr (e_type e) ''get''))
       @ concat (processPathParts (extractPathParts (strOr (e_url e) [])))"
  by (auto simp: generateOperationId_def generateOperationIdFromPath_def Let_def)

lemma capitalizeFirst_get: "capitalizeFirst (toLowerCase ''get'') = ''Get''"
  by code_simp

text \<open>
  Where the normalized path does not name a member of \<open>Object.prototype\<close>, a record with a
  URL and no \<open>type\<close> is converted as claim C10 says: its operation is stored under its
  normalized path and the method key \<open>get\<close>, its identifier is registered in the ledger,
  and with no name (absent or blank) the identifier begins with \<open>Get\<close>.
\<close>

lemma default_method_stored:
  assumes t: "e_type e = TypeUndefined" and u: "e_url e = Some url" and n: "url \<noteq> []"
    and k: "normalizePath url \<notin> set objectPrototypeKeys"
  shows "\<exists>spec'. convertEndpoint e (spec, used) =
      (Inr spec', used @ [op_operationId (fst (buildOperation e (normalizePath url) ''get'' used))])
    \<and> operationAt spec' (normalizePath url) ''get''
        = Some (fst (buildOperation e (normalizePath url) ''get'' used))
    \<and> (e_name e = None \<or> (\<exists>n. e_name e = Some n \<and> trim n = []) \<longrightarrow>
         startsWith (op_operationId (fst (buildOperation e (normalizePath url) ''get'' used))) ''Get'')"
proof -
  from u n have s: "strOr (e_url e) [] = url" by (simp add: strOr_def)
  with n have ne: "strOr (e_url e) [] \<noteq> []" by simp
  from s have p: "endpointPath e = normalizePath url" by (simp add: endpointPath_def)
  note m = endpointMethod_absent [OF t]
  from t have tn: "e_type e \<noteq> TypeNull" by simp
  from k p have k': "endpointPath e \<notin> set objectPrototypeKeys" by simp
  from convertEndpoint_stores [OF ne tn k', of spec used] obtain spec'
    where a: "convertEndpoint e (spec, used) =
        (Inr spec', used @ [op_operationId (fst (buildOperation e (normalizePath url) ''get'' used))])"
      and b: "operationAt spec' (normalizePath url) ''get''
        = Some (fst (buildOperation e (normalizePath url) ''get'' used))"
    by (auto simp: p m)
  have c: "startsWith (op_operationId (fst (buildOperation e (normalizePath url) ''get'' used))) ''Get''"
    if "e_name e = None \<or> (\<exists>n. e_name e = Some n \<and> trim n = [])"
  proof -
    from generateOperationId_no_name [OF that] t
    have "\<exists>r. generateOperationId e = ''Get'' @ r"
      by (simp add: typeOr_def capitalizeFirst_get)
    then obtain r where r: "generateOperationId e = ''Get'' @ r" by blast
    obtain s where "fst (ensureUniqueOperationId (generateOperationId e) used)
        = generateOperationId e @ s"
      using ensureUniqueOperationId_extends by blast
    with r have "op_operationId (fst (buildOperation e (normalizePath url) ''get'' used))
        = ''Get'' @ (r @ s)"
      by (simp add: buildOperation_id)
    then show ?thesis by (simp only: startsWith_append)
  qed
  from a b c show ?thesis by blast
qed

text \<open>A record with the URL \<open>constructor\<close> and no \<open>type\<close>, and a record whose \<open>type\<close> is \<open>null\<close>.\<close>

definition constructorUrl :: endpoint where
  "constructorUrl = emptyEndpoint\<lparr>e_url := Some ''constructor''\<rparr>"

definition nullType :: endpoint where
  "nullType = emptyEndpoint\<lparr>e_url := Some ''/services'', e_type := TypeNull\<rparr>"

text \<open>
  Claim C10 fails on the code for a URL whose normalized path names a member of
  \<open>Object.prototype\<close>. For the record with the URL \<open>constructor\<close> and no \<open>type\<close>,
  \<open>paths['constructor']\<close> is the inherited function \<open>Object\<close>: \<open>ensurePathExists\<close> creates
  no path entry and the operation is written onto that function. The identifier
  \<open>GetConstructor\<close> is registered, and the document has no operation and no path
  \<open>constructor\<close>. Besides, a record whose \<open>type\<close> is \<open>null\<close> makes \<open>convertEndpoint\<close>
  throw, although \<open>generateOperationId\<close> reads such a \<open>type\<close> as \<open>get\<close>.
\<close>

theorem convertEndpoint_prototype_path:
  "e_type constructorUrl = TypeUndefined \<and> e_url constructorUrl = Some ''constructor''
   \<and> normalizePath ''constructor'' = ''constructor''
   \<and> (\<exists>spec'. convertEndpoint constructorUrl (createBaseOpenAPISpec newConverter, [])
                = (Inr spec', [''GetConstructor''])
          \<and> s_paths spec' ''constructor'' = None
          \<and> operationAt spec' ''constructor'' ''get'' = None)
   \<and> \<not> isl (fst (convertToOpenAPI (loaded [constructorUrl])))
   \<and> idAt (fst (convertToOpenAPI (loaded [constructorUrl]))) ''constructor'' ''get'' = None
   \<and> snd (convertToOpenAPI (loaded [constructorUrl]))
       = (loaded [constructorUrl])\<lparr>usedOperationIds := [''GetConstructor'']\<rparr>
   \<and> generateOperationId nullType = ''GetServices''
   \<and> convertEndpoint nullType (createBaseOpenAPISpec newConverter, []) = (Inl TypeError, [])
   \<and> fst (convertToOpenAPI (loaded [nullType])) = Inl TypeError"
proof -
  let ?base = "createBaseOpenAPISpec newConverter"
  have a: "e_type constructorUrl = TypeUndefined \<and> e_url constructorUrl = Some ''constructor''
      \<and> normalizePath ''constructor'' = ''constructor''"
    by code_simp
  have u: "strOr (e_url constructorUrl) [] \<noteq> []" by code_simp
  have t: "e_type constructorUrl \<noteq> TypeNull" by code_simp
  have p: "endpointPath constructorUrl = ''constructor''" by code_simp
  have m: "endpointMethod constructorUrl = ''get''" by code_simp
  have i: "snd (buildOperation constructorUrl ''constructor'' ''get'' []) = [''GetConstructor'']"
    by code_simp
  have k: "''constructor'' \<in> set objectPrototypeKeys" by code_simp
  have w: "\<not> builtinWriteThrows ''constructor'' ''get''" by code_simp
  have e: "s_paths ?base = Map.empty" by (simp add: createBaseOpenAPISpec_def)
  have s: "storeOperation (ensurePathExists Map.empty ''constructor'') ''constructor'' ''get'' operation
      = Inr Map.empty" for operation
    using k w by (simp add: storeOperation_def ensurePathExists_def)
  have c: "convertEndpoint constructorUrl (?base, [])
      = (Inr (?base\<lparr>s_paths := Map.empty\<rparr>), [''GetConstructor''])"
    by (simp add: convertEndpoint_convert [OF u t] p m e s i)
  have b: "\<exists>spec'. convertEndpoint constructorUrl (?base, []) = (Inr spec', [''GetConstructor''])
          \<and> s_paths spec' ''constructor'' = None
          \<and> operationAt spec' ''constructor'' ''get'' = None"
    using c by (simp add: operationAt_def)
  have d: "\<not> isl (fst (convertToOpenAPI (loaded [constructorUrl])))
      \<and> idAt (fst (convertToOpenAPI (loaded [constructorUrl]))) ''constructor'' ''get'' = None"
    by code_simp
  have "usedOperationIds (snd (convertToOpenAPI (loaded [constructorUrl]))) = [''GetConstructor'']"
    by code_simp
  moreover obtain used' where "snd (convertToOpenAPI (loaded [constructorUrl]))
      = (loaded [constructorUrl])\<lparr>usedOperationIds := used'\<rparr>"
    using convertToOpenAPI_state by blast
  ultimately have f: "snd (convertToOpenAPI (loaded [constructorUrl]))
       = (loaded [constructorUrl])\<lparr>usedOperationIds := [''GetConstructor'']\<rparr>"
    by simp
  have g: "generateOperationId nullType = ''GetServices''" by code_simp
  have un: "strOr (e_url nullType) [] \<noteq> []" by code_simp
  have tn: "e_type nullType = TypeNull" by code_simp
  from convertEndpoint_null [OF un tn, of "(?base, [])"]
  have h: "convertEndpoint nullType (?base, []) = (Inl TypeError, [])" by simp
  have "isl (fst (convertToOpenAPI (loaded [nullType])))" by code_simp
  moreover have "fst (convertToOpenAPI (loaded [nullType])) \<noteq> Inl NoAPIData"
    using convertToOpenAPI_no_data_lemma [of "[nullType]"] by simp
  ultimately have j: "fst (convertToOpenAPI (loaded [nullType])) = Inl TypeError"
    by (cases "fst (convertToOpenAPI (loaded [nullType]))") (auto intro: error.exhaust)
  from a b d f g h j show ?thesis by blast
qed

section \<open>Records named Details\<close>
















section \<open>Path normalization and path parameters\<close>

text \<open>
  The names that follow a colon in a URL, from left to right: what section 4.1 of the
  specification calls the ordered list of token names. It scans the URL as
  \<open>normalizePath\<close> does and keeps the tokens.
\<close>

function pathTokens :: "string \<Rightarrow> string list" where
  "pathTokens [] = []"
| "pathTokens (c # cs) =
     (if c = CHR '':'' \<and> takeWhile isWordChar cs \<noteq> []
      then takeWhile isWordChar cs # pathTokens (dropWhile isWordChar cs)
      else pathTokens cs)"
  by pat_completeness auto
termination
  by (relation "measure length") (auto simp: length_dropWhile_le le_imp_less_Suc)

lemma takeWhile_append_stop: "\<not> P x \<Longrightarrow> takeWhile P (cs @ x # xs) = takeWhile P cs"
  by (induction cs) auto

lemma dropWhile_append_stop: "\<not> P x \<Longrightarrow> dropWhile P (cs @ x # xs) = dropWhile P cs @ x # xs"
  by (induction cs) auto

lemma not_word_colon: "\<not> isWordChar CHR '':''"
  by code_simp

lemma not_word_open: "\<not> isWordChar CHR ''{''"
  by code_simp

lemma not_word_close: "\<not> isWordChar CHR ''}''"
  by code_simp

lemma takeWhile_Nil_dropWhile: "takeWhile P xs = [] \<Longrightarrow> dropWhile P xs = xs"
  by (cases xs) (auto split: if_splits)

lemma normalizePath_at_token:
  assumes "tok \<noteq> []" "list_all isWordChar tok" "takeWhile isWordChar rest = []"
  shows "normalizePath (CHR '':'' # tok @ rest) = ''{'' @ tok @ ''}'' @ normalizePath rest"
proof -
  from assms(2) have a: "\<forall>x\<in>set tok. isWordChar x" by (simp add: list_all_iff)
  then have t: "takeWhile isWordChar (tok @ rest) = tok"
    using assms(3) by simp
  from a have "dropWhile isWordChar (tok @ rest) = dropWhile isWordChar rest"
    by simp
  with assms(3) have d: "dropWhile isWordChar (tok @ rest) = rest"
    by (simp add: takeWhile_Nil_dropWhile)
  from t d assms(1) show ?thesis by simp
qed

lemma normalizePath_token:
  assumes "tok \<noteq> []" "list_all isWordChar tok" "takeWhile isWordChar rest = []"
  shows "normalizePath (pre @ '':'' @ tok @ rest)
    = normalizePath pre @ ''{'' @ tok @ ''}'' @ normalizePath rest"
proof (induction pre rule: normalizePath.induct)
  case 1
  from normalizePath_at_token [OF assms] show ?case by simp
next
  case (2 c cs)
  let ?X = "tok @ rest"
  have tw: "takeWhile isWordChar (cs @ CHR '':'' # ?X) = takeWhile isWordChar cs"
    using not_word_colon by (rule takeWhile_append_stop)
  have dw: "dropWhile isWordChar (cs @ CHR '':'' # ?X) = dropWhile isWordChar cs @ CHR '':'' # ?X"
    using not_word_colon by (rule dropWhile_append_stop)
  show ?case
  proof (cases "c = CHR '':'' \<and> takeWhile isWordChar cs \<noteq> []")
    case True
    with "2.IH"(1) have "normalizePath (dropWhile isWordChar cs @ '':'' @ tok @ rest)
        = normalizePath (dropWhile isWordChar cs) @ ''{'' @ tok @ ''}'' @ normalizePath rest"
      by simp
    with True tw dw show ?thesis by simp
  next
    case False
    with "2.IH"(2) have "normalizePath (cs @ '':'' @ tok @ rest)
        = normalizePath cs @ ''{'' @ tok @ ''}'' @ normalizePath rest"
      by simp
    with False tw show ?thesis by auto
  qed
qed

lemma matchBraces_normalizePath:
  "CHR ''{'' \<notin> set url \<Longrightarrow>
   matchBraces (normalizePath url) = map (\<lambda>t. ''{'' @ t @ ''}'') (pathTokens url)"
proof (induction url rule: normalizePath.induct)
  case 1
  show ?case by simp
next
  case (2 c cs)
  let ?tw = "takeWhile isWordChar cs" and ?dw = "dropWhile isWordChar cs"
  show ?case
  proof (cases "c = CHR '':'' \<and> ?tw \<noteq> []")
    case True
    have "set ?dw \<subseteq> set cs" by (rule set_dropWhileD [THEN subsetI])
    with "2.prems" have "CHR ''{'' \<notin> set ?dw" by auto
    with "2.IH"(1) True have ih: "matchBraces (normalizePath ?dw)
        = map (\<lambda>t. ''{'' @ t @ ''}'') (pathTokens ?dw)" by simp
    have "takeWhile isWordChar (?tw @ CHR ''}'' # normalizePath ?dw) = takeWhile isWordChar ?tw"
      using not_word_close by (rule takeWhile_append_stop)
    then have t: "takeWhile isWordChar (?tw @ CHR ''}'' # normalizePath ?dw) = ?tw"
      by simp
    have d: "dropWhile isWordChar (?tw @ CHR ''}'' # normalizePath ?dw)
        = CHR ''}'' # normalizePath ?dw"
    proof -
      have "dropWhile isWordChar ?tw = []"
        by (metis dropWhile_eq_Nil_conv set_takeWhileD)
      moreover have "dropWhile isWordChar (?tw @ CHR ''}'' # normalizePath ?dw)
          = dropWhile isWordChar ?tw @ CHR ''}'' # normalizePath ?dw"
        using not_word_close by (rule dropWhile_append_stop)
      ultimately show ?thesis by simp
    qed
    from True t d ih show ?thesis by simp
  next
    case False
    from "2.prems" have c: "c \<noteq> CHR ''{''" and "CHR ''{'' \<notin> set cs" by auto
    with "2.IH"(2) False have "matchBraces (normalizePath cs)
        = map (\<lambda>t. ''{'' @ t @ ''}'') (pathTokens cs)" by simp
    with False c show ?thesis by auto
  qed
qed

lemma pathTokens_word: "t \<in> set (pathTokens url) \<Longrightarrow> \<forall>x\<in>set t. isWordChar x"
proof (induction url rule: pathTokens.induct)
  case 1
  then show ?case by simp
next
  case (2 c cs)
  then show ?case
    by (auto split: if_splits dest: set_takeWhileD)
qed

lemma strip_braces:
  "\<forall>x\<in>set t. isWordChar x \<Longrightarrow>
   filter (\<lambda>ch. ch \<noteq> CHR ''{'' \<and> ch \<noteq> CHR ''}'') (''{'' @ t @ ''}'') = t"
proof -
  assume a: "\<forall>x\<in>set t. isWordChar x"
  with not_word_open not_word_close have "\<forall>x\<in>set t. x \<noteq> CHR ''{'' \<and> x \<noteq> CHR ''}''"
    by blast
  then have "filter (\<lambda>ch. ch \<noteq> CHR ''{'' \<and> ch \<noteq> CHR ''}'') t = t"
    by (simp add: filter_id_conv)
  then show ?thesis by simp
qed

lemma extractPathParameters_names:
  "CHR ''{'' \<notin> set url \<Longrightarrow>
   map p_name (extractPathParameters (normalizePath url)) = pathTokens url"
proof -
  assume "CHR ''{'' \<notin> set url"
  then have "map p_name (extractPathParameters (normalizePath url))
      = map (\<lambda>t. filter (\<lambda>ch. ch \<noteq> CHR ''{'' \<and> ch \<noteq> CHR ''}'') (''{'' @ t @ ''}''))
          (pathTokens url)"
    by (simp add: extractPathParameters_def matchBraces_normalizePath Let_def comp_def)
  also have "\<dots> = map (\<lambda>t. t) (pathTokens url)"
    by (rule map_cong [OF refl]) (use pathTokens_word strip_braces in blast)
  finally show ?thesis by simp
qed

lemma parameters_buildOperation:
  "op_parameters (fst (buildOperation e path method used))
     = extractPathParameters path @ extractQueryParameters e @ extractHeaderParameters e"
  by (simp add: buildOperation_def addSecurityIfNeeded_def addResponses_def
      addRequestBodyIfNeeded_def addRequestBody_def addParameters_def addDeprecationInfo_def
      Let_def split: prod.splits option.splits)

lemma parameter_locations:
  "list_all (\<lambda>p. p_in p = InPath) (extractPathParameters path)
   \<and> list_all (\<lambda>p. p_in p = InQuery) (extractQueryParameters e)
   \<and> list_all (\<lambda>p. p_in p = InHeader) (extractHeaderParameters e)"
  by (auto simp: extractPathParameters_def extractQueryParameters_def
      extractHeaderParameters_def list_all_iff Let_def split: option.splits)


lemma pathTokens_skip: "CHR '':'' \<notin> set w \<Longrightarrow> pathTokens (w @ xs) = pathTokens xs"
  by (induction w) auto

lemma takeWhile_normalizePath:
  "takeWhile isWordChar cs = [] \<Longrightarrow> takeWhile isWordChar (normalizePath cs) = []"
  using not_word_open by (cases cs) (auto split: if_splits)

lemma pathTokens_normalizePath: "pathTokens (normalizePath url) = []"
proof (induction url rule: normalizePath.induct)
  case 1
  show ?case by simp
next
  case (2 c cs)
  let ?tw = "takeWhile isWordChar cs" and ?dw = "dropWhile isWordChar cs"
  show ?case
  proof (cases "c = CHR '':'' \<and> ?tw \<noteq> []")
    case True
    with "2.IH"(1) have ih: "pathTokens (normalizePath ?dw) = []" by simp
    have "CHR '':'' \<notin> set ?tw"
      using not_word_colon by (auto dest: set_takeWhileD)
    then have "pathTokens (?tw @ CHR ''}'' # normalizePath ?dw)
        = pathTokens (CHR ''}'' # normalizePath ?dw)"
      by (rule pathTokens_skip)
    with True ih show ?thesis by simp
  next
    case False
    with "2.IH"(2) have ih: "pathTokens (normalizePath cs) = []" by simp
    show ?thesis
    proof (cases "c = CHR '':''")
      case True
      with False have "?tw = []" by simp
      then have "takeWhile isWordChar (normalizePath cs) = []"
        by (rule takeWhile_normalizePath)
      with True False ih show ?thesis by simp
    next
      case False
      with ih show ?thesis by simp
    qed
  qed
qed

text \<open>
  Claim C3, as the code has it. Every colon followed by word characters is replaced,
  with the longest run of word characters after it, by that run in braces, the run
  itself unchanged (underscores stay); no such token is left in the normalized path.
  \<open>:a/:b_c\<close> becomes \<open>{a}/{b_c}\<close>, with the path parameters \<open>a\<close> and \<open>b_c\<close>. For a URL
  without an opening brace of its own, the path parameters are named after the URL's
  tokens, one each, from left to right. The parameter list of an operation is the path
  parameters, then the query parameters, then the header parameters.
\<close>

theorem normalizePath_parameters:
  "(tok \<noteq> [] \<and> list_all isWordChar tok \<and> takeWhile isWordChar rest = []
      \<longrightarrow> normalizePath (pre @ '':'' @ tok @ rest)
          = normalizePath pre @ ''{'' @ tok @ ''}'' @ normalizePath rest)
   \<and> pathTokens (normalizePath url) = []
   \<and> normalizePath '':a/:b_c'' = ''{a}/{b_c}''
   \<and> map p_name (extractPathParameters ''{a}/{b_c}'') = [''a'', ''b_c'']
   \<and> (CHR ''{'' \<notin> set url
      \<longrightarrow> map p_name (extractPathParameters (normalizePath url)) = pathTokens url)
   \<and> op_parameters (fst (buildOperation e path method used))
       = extractPathParameters path @ extractQueryParameters e @ extractHeaderParameters e
   \<and> list_all (\<lambda>p. p_in p = InPath) (extractPathParameters path)
   \<and> list_all (\<lambda>p. p_in p = InQuery) (extractQueryParameters e)
   \<and> list_all (\<lambda>p. p_in p = InHeader) (extractHeaderParameters e)"
proof -
  have a: "normalizePath '':a/:b_c'' = ''{a}/{b_c}''" by code_simp
  have b: "map p_name (extractPathParameters ''{a}/{b_c}'') = [''a'', ''b_c'']" by code_simp
  from a b normalizePath_token [of tok rest pre] pathTokens_normalizePath [of url]
    extractPathParameters_names [of url] parameters_buildOperation [of e path "method" used]
    parameter_locations [of path e]
  show ?thesis by blast
qed

text \<open>
  The claim as written has \<open>:a/:b_c\<close> normalize to \<open>{a}/{bC}\<close>; the code keeps the
  underscore.
\<close>

theorem normalizePath_parameters_counterexample:
  "normalizePath '':a/:b_c'' = ''{a}/{b_c}'' \<and> normalizePath '':a/:b_c'' \<noteq> ''{a}/{bC}''"
  by code_simp

text \<open>A URL with two tokens, split at its first token.\<close>

theorem normalizePath_parameters_witness:
  "''service_id'' \<noteq> [] \<and> list_all isWordChar ''service_id''
   \<and> takeWhile isWordChar ''/users/:user_id'' = []
   \<and> normalizePath (''/services/'' @ '':'' @ ''service_id'' @ ''/users/:user_id'')
       = ''/services/'' @ ''{'' @ ''service_id'' @ ''}'' @ ''/users/{user_id}''
   \<and> CHR ''{'' \<notin> set ''/services/:service_id/users/:user_id''
   \<and> pathTokens ''/services/:service_id/users/:user_id'' = [''service_id'', ''user_id'']
   \<and> map p_name (extractPathParameters (normalizePath ''/services/:service_id/users/:user_id''))
       = [''service_id'', ''user_id'']"
proof -
  have h0: "''service_id'' \<noteq> []" by simp
  have h1: "list_all isWordChar ''service_id''" by code_simp
  have h2: "takeWhile isWordChar ''/users/:user_id'' = []" by code_simp
  have h3: "CHR ''{'' \<notin> set ''/services/:service_id/users/:user_id''" by code_simp
  have n1: "normalizePath ''/services/'' = ''/services/''" by code_simp
  have n2: "normalizePath ''/users/:user_id'' = ''/users/{user_id}''" by code_simp
  have t: "pathTokens ''/services/:service_id/users/:user_id'' = [''service_id'', ''user_id'']"
    by code_simp
  note inst = normalizePath_parameters [of "''service_id''" "''/users/:user_id''" "''/services/''"
      "''/services/:service_id/users/:user_id''"]
  from inst h0 h1 h2
  have "normalizePath (''/services/'' @ '':'' @ ''service_id'' @ ''/users/:user_id'')
      = normalizePath ''/services/'' @ ''{'' @ ''service_id'' @ ''}''
          @ normalizePath ''/users/:user_id''"
    by blast
  then have c1: "normalizePath (''/services/'' @ '':'' @ ''service_id'' @ ''/users/:user_id'')
      = ''/services/'' @ ''{'' @ ''service_id'' @ ''}'' @ ''/users/{user_id}''"
    by (simp only: n1 n2)
  from inst h3
  have "map p_name (extractPathParameters (normalizePath ''/services/:service_id/users/:user_id''))
      = pathTokens ''/services/:service_id/users/:user_id''"
    by blast
  then have c2: "map p_name
      (extractPathParameters (normalizePath ''/services/:service_id/users/:user_id''))
      = [''service_id'', ''user_id'']"
    by (simp only: t)
  from h0 h1 h2 h3 c1 t c2 show ?thesis by blast
qed


section \<open>Identifiers from a name and from the path\<close>

lemma processPathParts_eq:
  "processPathParts parts =
     map (\<lambda>part. if startsWith part '':'' then convertToPascalCase (drop 1 part)
                 else convertToPascalCase part) parts"
  by (simp add: processPathParts_def convertParamToPascalCase_def convertToPascalCase_def)

lemma getGroupPrefix_eq:
  "getGroupPrefix e =
     (case e_group e of
        None \<Rightarrow> []
      | Some g \<Rightarrow> if g = [] \<or> g = ''Default'' then [] else filter isAlnum g)"
  by (simp add: getGroupPrefix_def split: option.splits)

lemma isGenericOperationName_eq:
  "isGenericOperationName s =
     ((\<exists>g\<in>set genericNames. includesStr (toLowerCase s) (toLowerCase g)) \<or> length s < 4)"
  by (simp add: isGenericOperationName_def list_ex_iff)

lemma generateOperationId_generic:
  "e_name e = Some n \<Longrightarrow> trim n \<noteq> [] \<Longrightarrow> isGenericOperationName (filter isAlnum n) \<Longrightarrow>
   generateOperationId e =
     capitalizeFirst (getGroupPrefix e
       @ concat (processPathParts (extractPathParts (strOr (e_url e) []))) @ filter isAlnum n)"
  by (simp add: generateOperationId_def generateOperationIdFromName_def
      generateContextualOperationId_def generatePathId_def Let_def)

text \<open>The record of the unit test for generic names, whose group is \<open>Game_Minecraft\<close>.\<close>

definition minecraftDetails :: endpoint where
  "minecraftDetails = emptyEndpoint\<lparr>e_type := TypeString ''get'',
     e_url := Some ''/services/:id/gameservers/games/minecraft'',
     e_name := Some ''Details'', e_group := Some ''Game_Minecraft''\<rparr>"

text \<open>A record named \<open>Details\<close> whose group is \<open>game_server\<close>.\<close>

definition gameServerDetails :: endpoint where
  "gameServerDetails = emptyEndpoint\<lparr>e_type := TypeString ''get'', e_url := Some ''/services/:id'',
     e_name := Some ''Details'', e_group := Some ''game_server''\<rparr>"

text \<open>
  Claim C4, as the code has it. For a record whose name is present and not blank and
  whose \<open>cleanName\<close> (the name without its non-alphanumeric characters) is generic, the
  identifier is the concatenation, with its first letter capitalized, of: the group with
  its non-alphanumeric characters removed (nothing when the group is absent, empty or
  \<open>Default\<close>); the PascalCased parts of the path, a part that starts with a colon being
  PascalCased without the colon; and \<open>cleanName\<close>. A name is generic when, in lower case,
  it contains an entry of the vocabulary in lower case, or when it is shorter than 4.
  The records of the unit tests get \<open>GameMinecraftServicesIdGameserversGamesMinecraftDetails\<close>
  and \<open>UsersProfileGetUserProfile\<close>.
\<close>

theorem contextual_identifier:
  "(e_name e = Some n \<and> trim n \<noteq> [] \<and> isGenericOperationName (filter isAlnum n) \<longrightarrow>
     generateOperationId e =
       capitalizeFirst
         ((case e_group e of
             None \<Rightarrow> []
           | Some g \<Rightarrow> if g = [] \<or> g = ''Default'' then [] else filter isAlnum g)
          @ concat (map (\<lambda>part. if startsWith part '':'' then convertToPascalCase (drop 1 part)
                                else convertToPascalCase part)
                      (extractPathParts (strOr (e_url e) [])))
          @ filter isAlnum n))
   \<and> isGenericOperationName s =
       ((\<exists>g\<in>set genericNames. includesStr (toLowerCase s) (toLowerCase g)) \<or> length s < 4)
   \<and> genericNames =
       [''Details'', ''List'', ''Create'', ''Update'', ''Delete'', ''Get'', ''Post'', ''Put'', ''Patch'',
        ''Restart'', ''Stop'', ''Start'', ''Info'', ''Status'', ''Check'', ''Add'', ''Remove'', ''Set'',
        ''Generate'', ''Enable'', ''Disable'', ''Send'', ''Receive'', ''Upload'', ''Download'']
   \<and> generateOperationId minecraftDetails
       = ''GameMinecraftServicesIdGameserversGamesMinecraftDetails''
   \<and> generateOperationId gameServerDetails = ''GameserverServicesIdDetails''
   \<and> generateOperationId (emptyEndpoint\<lparr>e_name := Some ''GetUserProfile'',
         e_url := Some ''/users/profile'', e_type := TypeString ''get''\<rparr>)
       = ''UsersProfileGetUserProfile''
   \<and> generateOperationId (emptyEndpoint\<lparr>e_name := Some ''a-b'', e_group := Some ''Default'',
         e_url := Some ''/x_y/:some_id''\<rparr>) = ''XYSomeIdab''
   \<and> isGenericOperationName ''MyUPLOADer'' \<and> isGenericOperationName ''abc''
   \<and> \<not> isGenericOperationName ''Overview''"
proof -
  have a: "genericNames =
       [''Details'', ''List'', ''Create'', ''Update'', ''Delete'', ''Get'', ''Post'', ''Put'', ''Patch'',
        ''Restart'', ''Stop'', ''Start'', ''Info'', ''Status'', ''Check'', ''Add'', ''Remove'', ''Set'',
        ''Generate'', ''Enable'', ''Disable'', ''Send'', ''Receive'', ''Upload'', ''Download'']"
    by (simp add: genericNames_def)
  have b: "generateOperationId minecraftDetails
       = ''GameMinecraftServicesIdGameserversGamesMinecraftDetails''
   \<and> generateOperationId gameServerDetails = ''GameserverServicesIdDetails''
   \<and> generateOperationId (emptyEndpoint\<lparr>e_name := Some ''GetUserProfile'',
         e_url := Some ''/users/profile'', e_type := TypeString ''get''\<rparr>)
       = ''UsersProfileGetUserProfile''
   \<and> generateOperationId (emptyEndpoint\<lparr>e_name := Some ''a-b'', e_group := Some ''Default'',
         e_url := Some ''/x_y/:some_id''\<rparr>) = ''XYSomeIdab''
   \<and> isGenericOperationName ''MyUPLOADer'' \<and> isGenericOperationName ''abc''
   \<and> \<not> isGenericOperationName ''Overview''"
    by code_simp
  have c: "e_name e = Some n \<and> trim n \<noteq> [] \<and> isGenericOperationName (filter isAlnum n) \<longrightarrow>
     generateOperationId e =
       capitalizeFirst
         ((case e_group e of
             None \<Rightarrow> []
           | Some g \<Rightarrow> if g = [] \<or> g = ''Default'' then [] else filter isAlnum g)
          @ concat (map (\<lambda>part. if startsWith part '':'' then convertToPascalCase (drop 1 part)
                                else convertToPascalCase part)
                      (extractPathParts (strOr (e_url e) [])))
          @ filter isAlnum n)"
    using generateOperationId_generic [of e n]
    by (simp add: processPathParts_eq getGroupPrefix_eq)
  from a b c isGenericOperationName_eq [of s] show ?thesis by blast
qed

text \<open>
  The claim as written PascalCases the group. For the group \<open>game_server\<close> that would
  give the prefix \<open>GameServer\<close>; the code removes the underscore and capitalizes only the
  first letter of the whole identifier.
\<close>

theorem contextual_identifier_counterexample:
  "e_name gameServerDetails = Some ''Details''
   \<and> isGenericOperationName (filter isAlnum ''Details'')
   \<and> generateOperationId gameServerDetails = ''GameserverServicesIdDetails''
   \<and> capitalizeFirst (convertToPascalCase ''game_server''
        @ concat (processPathParts (extractPathParts ''/services/:id''))
        @ filter isAlnum ''Details'') = ''GameServerServicesIdDetails''
   \<and> generateOperationId gameServerDetails
       \<noteq> capitalizeFirst (convertToPascalCase ''game_server''
            @ concat (processPathParts (extractPathParts ''/services/:id''))
            @ filter isAlnum ''Details'')"
  by code_simp

text \<open>
  A record whose name has a no-break space in front satisfies the hypotheses: the name is
  not blank and its \<open>cleanName\<close> is \<open>Status\<close>.
\<close>

definition paddedStatus :: endpoint where
  "paddedStatus = emptyEndpoint\<lparr>e_url := Some ''/company/:id'',
     e_name := Some (CHR 0xA0 # '' Status!''), e_group := Some ''Company''\<rparr>"

theorem contextual_identifier_witness:
  "e_name paddedStatus = Some (CHR 0xA0 # '' Status!'')
   \<and> trim (CHR 0xA0 # '' Status!'') = ''Status!''
   \<and> trim (CHR 0xA0 # '' Status!'') \<noteq> []
   \<and> filter isAlnum (CHR 0xA0 # '' Status!'') = ''Status''
   \<and> isGenericOperationName (filter isAlnum (CHR 0xA0 # '' Status!''))
   \<and> generateOperationId paddedStatus = ''CompanyCompanyIdStatus''"
proof -
  let ?n = "CHR 0xA0 # '' Status!''"
  have h1: "e_name paddedStatus = Some ?n" by (simp add: paddedStatus_def)
  have h2: "trim ?n = ''Status!''" by code_simp
  then have h2': "trim ?n \<noteq> []" by simp
  have h3: "filter isAlnum ?n = ''Status''" by code_simp
  have h4: "isGenericOperationName (filter isAlnum ?n)" by code_simp
  have v: "capitalizeFirst
         ((case e_group paddedStatus of
             None \<Rightarrow> []
           | Some g \<Rightarrow> if g = [] \<or> g = ''Default'' then [] else filter isAlnum g)
          @ concat (map (\<lambda>part. if startsWith part '':'' then convertToPascalCase (drop 1 part)
                                else convertToPascalCase part)
                      (extractPathParts (strOr (e_url paddedStatus) [])))
          @ filter isAlnum ?n)
      = ''CompanyCompanyIdStatus''"
    by code_simp
  from contextual_identifier [of paddedStatus ?n] h1 h2' h4
  have "generateOperationId paddedStatus =
       capitalizeFirst
         ((case e_group paddedStatus of
             None \<Rightarrow> []
           | Some g \<Rightarrow> if g = [] \<or> g = ''Default'' then [] else filter isAlnum g)
          @ concat (map (\<lambda>part. if startsWith part '':'' then convertToPascalCase (drop 1 part)
                                else convertToPascalCase part)
                      (extractPathParts (strOr (e_url paddedStatus) [])))
          @ filter isAlnum ?n)"
    by blast
  with v have "generateOperationId paddedStatus = ''CompanyCompanyIdStatus''"
    by (simp only:)
  with h1 h2 h2' h3 h4 show ?thesis by blast
qed

text \<open>
  Claim C5, as the code has it. For a record whose name is absent or blank, the identifier
  is the method (the record's \<open>type\<close>, or \<open>get\<close> when the record has none) in lower case
  with its first letter capitalized, followed by the PascalCased parts of the path in URL
  order, a part that starts with a colon being PascalCased without the colon. The method
  is not PascalCased: an underscore in it stays. PascalCasing a part turns each
  underscore followed by a lower-case letter into that letter in upper case and then
  capitalizes the first letter. The record with URL \<open>/company/stats\<close>, method \<open>get\<close> and
  no name gets \<open>GetCompanyStats\<close>.
\<close>

theorem path_identifier:
  "(e_name e = None \<or> (\<exists>n. e_name e = Some n \<and> trim n = []) \<longrightarrow>
     generateOperationId e =
       capitalizeFirst (toLowerCase (typeOr (e_type e) ''get''))
       @ concat (map (\<lambda>part. if startsWith part '':'' then convertToPascalCase (drop 1 part)
                             else convertToPascalCase part)
                   (extractPathParts (strOr (e_url e) []))))
   \<and> convertToPascalCase s = capitalizeFirst (snakeToCamel s)
   \<and> typeOr TypeUndefined ''get'' = ''get'' \<and> typeOr TypeNull ''get'' = ''get''
   \<and> typeOr (TypeString []) ''get'' = ''get''
   \<and> (t \<noteq> [] \<longrightarrow> typeOr (TypeString t) ''get'' = t)
   \<and> generateOperationId companyStats = ''GetCompanyStats''
   \<and> generateOperationId (emptyEndpoint\<lparr>e_url := Some ''/services/:service_id/gameservers/:id'',
         e_type := TypeString ''post''\<rparr>) = ''PostServicesServiceIdGameserversId''
   \<and> generateOperationId (emptyEndpoint\<lparr>e_url := Some ''/services/:service_id/users/:user_id'',
         e_type := TypeString ''PUT'', e_name := Some [CHR 0xA0, CHR 0x09]\<rparr>)
       = ''PutServicesServiceIdUsersUserId''
   \<and> generateOperationId (emptyEndpoint\<lparr>e_url := Some ''/game_servers//:_id/x_1/''\<rparr>)
       = ''GetGameServersIdX_1''
   \<and> generateOperationId (emptyEndpoint\<lparr>e_url := Some ''/a'', e_type := TypeString [CHR 0xC9]\<rparr>)
       = [CHR 0xE9, CHR ''A'']"
proof -
  have a: "generateOperationId companyStats = ''GetCompanyStats''
   \<and> generateOperationId (emptyEndpoint\<lparr>e_url := Some ''/services/:service_id/gameservers/:id'',
         e_type := TypeString ''post''\<rparr>) = ''PostServicesServiceIdGameserversId''
   \<and> generateOperationId (emptyEndpoint\<lparr>e_url := Some ''/services/:service_id/users/:user_id'',
         e_type := TypeString ''PUT'', e_name := Some [CHR 0xA0, CHR 0x09]\<rparr>)
       = ''PutServicesServiceIdUsersUserId''
   \<and> generateOperationId (emptyEndpoint\<lparr>e_url := Some ''/game_servers//:_id/x_1/''\<rparr>)
       = ''GetGameServersIdX_1''
   \<and> generateOperationId (emptyEndpoint\<lparr>e_url := Some ''/a'', e_type := TypeString [CHR 0xC9]\<rparr>)
       = [CHR 0xE9, CHR ''A'']"
    by code_simp
  have b: "typeOr TypeUndefined ''get'' = ''get'' \<and> typeOr TypeNull ''get'' = ''get''
      \<and> typeOr (TypeString []) ''get'' = ''get''
      \<and> (t \<noteq> [] \<longrightarrow> typeOr (TypeString t) ''get'' = t)"
    by (simp add: typeOr_def)
  from a b generateOperationId_no_name [of e] show ?thesis
    by (simp add: processPathParts_eq convertToPascalCase_def)
qed

text \<open>
  The claim as written PascalCases the method. For the method \<open>get_all\<close> that would give
  \<open>GetAll\<close>; the code only puts the method in lower case and capitalizes its first letter.
\<close>

definition getAll :: endpoint where
  "getAll = emptyEndpoint\<lparr>e_type := TypeString ''get_all'', e_url := Some ''/users''\<rparr>"

theorem path_identifier_counterexample:
  "e_name getAll = None
   \<and> generateOperationId getAll = ''Get_allUsers''
   \<and> convertToPascalCase ''get_all''
        @ concat (processPathParts (extractPathParts ''/users'')) = ''GetAllUsers''
   \<and> generateOperationId getAll
       \<noteq> convertToPascalCase ''get_all'' @ concat (processPathParts (extractPathParts ''/users''))"
  by code_simp

text \<open>A record with a blank name, an upper-case method and a path parameter.\<close>

definition blankName :: endpoint where
  "blankName = emptyEndpoint\<lparr>e_type := TypeString ''POST'',
     e_url := Some ''/services/:service_id/game_servers'', e_name := Some ''  ''\<rparr>"

theorem path_identifier_witness:
  "(\<exists>n. e_name blankName = Some n \<and> trim n = [])
   \<and> ''POST'' \<noteq> [] \<and> typeOr (TypeString ''POST'') ''get'' = ''POST''
   \<and> generateOperationId blankName = ''PostServicesServiceIdGameServers''"
proof -
  have h1: "e_name blankName = Some ''  '' \<and> trim ''  '' = []" by code_simp
  then have h1': "\<exists>n. e_name blankName = Some n \<and> trim n = []" by blast
  have h2: "''POST'' \<noteq> []" by simp
  have v: "capitalizeFirst (toLowerCase (typeOr (e_type blankName) ''get''))
       @ concat (map (\<lambda>part. if startsWith part '':'' then convertToPascalCase (drop 1 part)
                             else convertToPascalCase part)
                   (extractPathParts (strOr (e_url blankName) [])))
      = ''PostServicesServiceIdGameServers''"
    by code_simp
  note inst = path_identifier [of blankName undefined "''POST''"]
  from inst h1' have "generateOperationId blankName =
       capitalizeFirst (toLowerCase (typeOr (e_type blankName) ''get''))
       @ concat (map (\<lambda>part. if startsWith part '':'' then convertToPascalCase (drop 1 part)
                             else convertToPascalCase part)
                   (extractPathParts (strOr (e_url blankName) [])))"
    by blast
  with v have c1: "generateOperationId blankName = ''PostServicesServiceIdGameServers''"
    by (simp only:)
  from inst h2 have c2: "typeOr (TypeString ''POST'') ''get'' = ''POST''"
    by blast
  from h1' h2 c2 c1 show ?thesis by blast
qed

end
